theory Spec2Isabelle
  imports Main "HOL-Library.AList" "HOL-Library.DAList"
begin

section \<open>Path: branch collections per stage (src/lib/path.ts)\<close>

text \<open>
  A branch, as far as \<^verbatim>\<open>Path\<close> reads it: its \<^verbatim>\<open>id\<close> and its \<^verbatim>\<open>force\<close> flag
  (an absent flag is falsy, so \<open>False\<close>). The record is extensible, the other
  attributes of a branch live in the extension.
\<close>

record branch =
  branch_id :: string
  force :: bool

text \<open>
  A collection is a JavaScript object keyed by branch id: an association list in
  insertion order whose keys are distinct, which is the type \<open>alist\<close>.
\<close>

type_synonym 'b collection = "(string, 'b) alist"

record 'b path =
  scope :: string
  listen :: "'b collection"
  understand :: "'b collection"
  serve :: "'b collection"
  act :: "'b collection"

datatype stage = Listen | Understand | Serve | Act

fun get_collection :: "stage \<Rightarrow> 'b path \<Rightarrow> 'b collection" where
  "get_collection Listen p = listen p"
| "get_collection Understand p = understand p"
| "get_collection Serve p = serve p"
| "get_collection Act p = act p"

fun set_collection :: "stage \<Rightarrow> 'b collection \<Rightarrow> 'b path \<Rightarrow> 'b path" where
  "set_collection Listen c p = p\<lparr>listen := c\<rparr>"
| "set_collection Understand c p = p\<lparr>understand := c\<rparr>"
| "set_collection Serve c p = p\<lparr>serve := c\<rparr>"
| "set_collection Act c p = p\<lparr>act := c\<rparr>"

text \<open>\<^verbatim>\<open>Object.keys(o)\<close>: the keys in insertion order.\<close>

definition object_keys :: "('k, 'v) alist \<Rightarrow> 'k list" where
  "object_keys c = map fst (DAList.impl_of c)"

text \<open>
  The loop of \<^verbatim>\<open>forced\<close>: \<^verbatim>\<open>for (let id in this[collection])\<close> visits the keys
  the object had when the loop began; a key deleted before its turn is not visited.
  A visited branch without \<^verbatim>\<open>force\<close> is deleted.
\<close>

fun forced_loop :: "string list \<Rightarrow> ('a branch_scheme) collection \<Rightarrow> ('a branch_scheme) collection" where
  "forced_loop [] c = c"
| "forced_loop (i # ids) c =
     (case DAList.lookup c i of
        None \<Rightarrow> forced_loop ids c
      | Some b \<Rightarrow> forced_loop ids (if \<not> force b then DAList.delete i c else c))"

text \<open>
  \<^verbatim>\<open>forced (collection)\<close> returns \<^verbatim>\<open>Object.keys(this[collection]).length\<close> and
  leaves the path mutated; the model returns the count with the new path. The
  TypeScript signature admits \<^verbatim>\<open>'listen' | 'understand' | 'act'\<close>; the body does the
  same for every collection name, so the model takes any stage.
\<close>

definition forced :: "stage \<Rightarrow> ('a branch_scheme) path \<Rightarrow> nat \<times> ('a branch_scheme) path" where
  "forced s p =
     (let c = forced_loop (object_keys (get_collection s p)) (get_collection s p)
      in (length (object_keys c), set_collection s c p))"

text \<open>\<^verbatim>\<open>add (branch, collection)\<close>: \<^verbatim>\<open>this[collection][branch.id] = branch\<close>, returns the id.\<close>

definition add :: "('a branch_scheme) \<Rightarrow> stage \<Rightarrow> ('a branch_scheme) path \<Rightarrow> string \<times> ('a branch_scheme) path" where
  "add b s p =
     (branch_id b, set_collection s (DAList.update (branch_id b) b (get_collection s p)) p)"

text \<open>\<^verbatim>\<open>reset ()\<close> assigns fresh empty objects to \<^verbatim>\<open>listen\<close>, \<^verbatim>\<open>understand\<close>, \<^verbatim>\<open>act\<close>.\<close>

definition reset :: "'b path \<Rightarrow> 'b path" where
  "reset p = p\<lparr>listen := DAList.empty, understand := DAList.empty, act := DAList.empty\<rparr>"

text \<open>The branches held by a collection.\<close>

definition branches :: "'b collection \<Rightarrow> 'b list" where
  "branches c = map snd (DAList.impl_of c)"

section \<open>Settings: the name and alias setters (config.ts)\<close>

text \<open>
  Strings are lists of \<open>char\<close>; a \<open>char\<close> stands for one code unit below 256.
  The character tests below are the ASCII ranges the regular expressions of the
  source name.
\<close>

definition is_lower :: "char \<Rightarrow> bool" where
  "is_lower c \<longleftrightarrow> 97 \<le> (of_char c :: nat) \<and> (of_char c :: nat) \<le> 122"

definition is_upper :: "char \<Rightarrow> bool" where
  "is_upper c \<longleftrightarrow> 65 \<le> (of_char c :: nat) \<and> (of_char c :: nat) \<le> 90"

definition is_digit :: "char \<Rightarrow> bool" where
  "is_digit c \<longleftrightarrow> 48 \<le> (of_char c :: nat) \<and> (of_char c :: nat) \<le> 57"

text \<open>\<^verbatim>\<open>toUpperCase\<close> and \<^verbatim>\<open>toLowerCase\<close> on one ASCII character.\<close>

definition to_upper :: "char \<Rightarrow> char" where
  "to_upper c = (if is_lower c then char_of ((of_char c :: nat) - 32) else c)"

definition to_lower :: "char \<Rightarrow> char" where
  "to_lower c = (if is_upper c then char_of ((of_char c :: nat) + 32) else c)"

text \<open>
  A character matches a class under the flag \<^verbatim>\<open>i\<close> when some member of the class
  has the same canonical (upper case) form. For an ASCII character the only
  candidates are the character itself and its two case variants.
\<close>

definition matches_ignore_case :: "(char \<Rightarrow> bool) \<Rightarrow> char \<Rightarrow> bool" where
  "matches_ignore_case cls c \<longleftrightarrow> cls c \<or> cls (to_lower c) \<or> cls (to_upper c)"

text \<open>The class \<^verbatim>\<open>[a-z0-9_-]\<close> as written in \<^verbatim>\<open>safeName\<close>.\<close>

definition name_class :: "char \<Rightarrow> bool" where
  "name_class c \<longleftrightarrow> is_lower c \<or> is_digit c \<or> c = CHR ''_'' \<or> c = CHR ''-''"

text \<open>
  \<^verbatim>\<open>safeName (name) { return name.replace(/[^a-z0-9_-]/ig, '') }\<close>: every character
  that matches the negated class, case ignored, is replaced by the empty string;
  the others stay in place.
\<close>

definition safeName :: "string \<Rightarrow> string" where
  "safeName name = filter (matches_ignore_case name_class) name"

text \<open>
  \<^verbatim>\<open>hyphenate\<close>: \<^verbatim>\<open>str.replace(/([A-Z])/g, (g) => `-${g[0].toLowerCase()}`)\<close>;
  \<^verbatim>\<open>camelCase\<close>: \<^verbatim>\<open>str.replace(/-([a-z])/gi, (g) => g[1].toUpperCase())\<close>.
\<close>

definition hyphenate :: "string \<Rightarrow> string" where
  "hyphenate str = concat (map (\<lambda>c. if is_upper c then [CHR ''-'', to_lower c] else [c]) str)"

fun camelCase :: "string \<Rightarrow> string" where
  "camelCase (c # d # r) =
     (if c = CHR ''-'' \<and> (is_lower d \<or> is_upper d) then to_upper d # camelCase r
      else c # camelCase (d # r))"
| "camelCase r = r"

text \<open>Configuration values are strings, booleans, numbers or null.\<close>

datatype config_value = Str string | Bool bool | Num int | Null

record settings =
  config :: "string \<rightharpoonup> config_value"
  updates :: "string \<rightharpoonup> config_value"

text \<open>The generic getter and setter of \<^verbatim>\<open>Settings\<close>.\<close>

definition get :: "string \<Rightarrow> settings \<Rightarrow> config_value option" where
  "get key st = config st key"

definition set_key :: "string \<Rightarrow> config_value \<Rightarrow> settings \<Rightarrow> settings" where
  "set_key key v st = st\<lparr>config := (config st)(key \<mapsto> v), updates := (updates st)(key \<mapsto> v)\<rparr>"

definition set_setting :: "string \<Rightarrow> config_value \<Rightarrow> settings \<Rightarrow> settings" where
  "set_setting key v st =
     (let st1 = set_key key v st
      in if key = hyphenate key then set_key (camelCase key) v st1
         else if key = camelCase key then set_key (hyphenate key) v st1
         else st1)"

text \<open>\<^verbatim>\<open>set name (name)\<close> and \<^verbatim>\<open>set alias (name)\<close>.\<close>

definition set_name :: "string \<Rightarrow> settings \<Rightarrow> settings" where
  "set_name name st = set_setting ''name'' (Str (safeName name)) st"

definition set_alias :: "string \<Rightarrow> settings \<Rightarrow> settings" where
  "set_alias name st = set_setting ''alias'' (Str (safeName name)) st"

text \<open>The characters the claim allows, and the characters the code keeps.\<close>

definition lower_name_char :: "char \<Rightarrow> bool" where
  "lower_name_char c \<longleftrightarrow> is_lower c \<or> is_digit c \<or> c = CHR ''_'' \<or> c = CHR ''-''"

definition any_case_name_char :: "char \<Rightarrow> bool" where
  "any_case_name_char c \<longleftrightarrow>
     is_lower c \<or> is_upper c \<or> is_digit c \<or> c = CHR ''_'' \<or> c = CHR ''-''"

definition empty_settings :: settings where
  "empty_settings = \<lparr>config = Map.empty, updates = Map.empty\<rparr>"

section \<open>Memory: saving to and loading from the storage adapter (memory.ts)\<close>

text \<open>
  A rejected promise or a thrown exception carries a JavaScript error. \<open>Unmodelled\<close>
  is not an error of the program: it marks an input outside the part of the host
  language that this theory models.
\<close>

datatype js_error = Error string | SyntaxError string | TypeError string | Unmodelled string

text \<open>
  The memory object: its collections by name (\<^verbatim>\<open>users\<close>, \<^verbatim>\<open>rooms\<close>, \<^verbatim>\<open>private\<close>
  and any collection added through the index signature), each a map from key to
  an opaque value, and \<^verbatim>\<open>intervals.save\<close> with the timer handle and the period.
\<close>

record 'v memory =
  collections :: "string \<rightharpoonup> (string \<rightharpoonup> 'v)"
  save_timer :: "nat option"
  save_value :: nat

definition new_memory :: "'v memory" where
  "new_memory =
     \<lparr>collections = [''users'' \<mapsto> Map.empty, ''rooms'' \<mapsto> Map.empty, ''private'' \<mapsto> Map.empty],
      save_timer = None, save_value = 5000\<rparr>"

text \<open>
  What a storage adapter is handed and hands back: an object whose enumerable keys
  are collection names and, when the object is a memory, \<^verbatim>\<open>intervals\<close>.
\<close>

record 'v memory_object =
  object_collections :: "string \<rightharpoonup> (string \<rightharpoonup> 'v)"
  object_intervals :: "(nat option \<times> nat) option"

definition as_object :: "'v memory \<Rightarrow> 'v memory_object" where
  "as_object m =
     \<lparr>object_collections = collections m, object_intervals = Some (save_timer m, save_value m)\<rparr>"

text \<open>
  The storage adapter is an interface; only the two methods memory calls are
  modelled, over an adapter state \<open>'a\<close>. \<^verbatim>\<open>loadMemory\<close> may resolve to
  \<^verbatim>\<open>undefined\<close> (\<open>None\<close>); either call may reject. The adapter receives the
  memory by value: what it hands back does not follow later changes of the memory.
  \<^verbatim>\<open>save\<close> passes the singleton \<^verbatim>\<open>memory\<close>, which is the only memory of the model.
\<close>

record ('v, 'a) storage_adapter =
  saveMemory :: "'v memory_object \<Rightarrow> 'a \<Rightarrow> js_error + 'a"
  loadMemory :: "'a \<Rightarrow> js_error + 'v memory_object option"

text \<open>
  The part of the bot that memory touches: the memory singleton, the storage slot of
  the adapter registry, the settings, the interval timers of the host and the log.
\<close>

record ('v, 'a) bot =
  memory :: "'v memory"
  storage :: "('v, 'a) storage_adapter option"
  storage_state :: 'a
  bot_settings :: settings
  timers :: "nat list"
  next_timer :: nat
  logged :: "string list"

text \<open>JavaScript truthiness of a configuration value (\<^verbatim>\<open>undefined\<close> is \<open>None\<close>).\<close>

fun truthy :: "config_value option \<Rightarrow> bool" where
  "truthy None = False"
| "truthy (Some (Str s)) = (s \<noteq> [])"
| "truthy (Some (Bool b)) = b"
| "truthy (Some (Num n)) = (n \<noteq> 0)"
| "truthy (Some Null) = False"

text \<open>\<^verbatim>\<open>clearSaveInterval\<close> stops the timer; the handle stays in \<^verbatim>\<open>intervals.save\<close>.\<close>

definition clearSaveInterval :: "('v, 'a) bot \<Rightarrow> ('v, 'a) bot" where
  "clearSaveInterval w =
     (case save_timer (memory w) of
        None \<Rightarrow> w
      | Some t \<Rightarrow> w\<lparr>timers := removeAll t (timers w)\<rparr>)"

text \<open>
  \<^verbatim>\<open>setSaveInterval (newInterval?)\<close>: a truthy argument replaces the period; without
  a storage adapter or with \<^verbatim>\<open>autoSave\<close> falsy, no timer is started.
\<close>

definition setSaveInterval :: "nat option \<Rightarrow> ('v, 'a) bot \<Rightarrow> ('v, 'a) bot" where
  "setSaveInterval newInterval w =
     (let w1 = (case newInterval of
                  None \<Rightarrow> w
                | Some n \<Rightarrow> if n \<noteq> 0 then w\<lparr>memory := (memory w)\<lparr>save_value := n\<rparr>\<rparr> else w)
      in if storage w1 = None \<or> \<not> truthy (get ''autoSave'' (bot_settings w1)) then w1
         else w1\<lparr>memory := (memory w1)\<lparr>save_timer := Some (next_timer w1)\<rparr>,
                 timers := next_timer w1 # timers w1,
                 next_timer := Suc (next_timer w1)\<rparr>)"

text \<open>
  \<^verbatim>\<open>save\<close>: returns at once without a storage adapter; otherwise stops the timer,
  hands the memory to \<^verbatim>\<open>saveMemory\<close> and starts the timer again.
\<close>

definition save :: "('v, 'a) bot \<Rightarrow> js_error + ('v, 'a) bot" where
  "save w =
     (case storage w of
        None \<Rightarrow> Inr w
      | Some ad \<Rightarrow>
          (let w1 = clearSaveInterval w
           in case saveMemory ad (as_object (memory w1)) (storage_state w1) of
                Inl e \<Rightarrow> Inl e
              | Inr a \<Rightarrow> Inr (setSaveInterval None (w1\<lparr>storage_state := a\<rparr>))))"

text \<open>
  The loop of \<^verbatim>\<open>load\<close>: for every key of the loaded object,
  \<^verbatim>\<open>this[key] = Object.assign({}, this[key], loaded[key])\<close>. A loaded collection is
  merged over the one in memory (an absent one counts as empty); a loaded
  \<^verbatim>\<open>intervals\<close> replaces \<^verbatim>\<open>intervals.save\<close>.
\<close>

definition merge_loaded :: "'v memory_object \<Rightarrow> 'v memory \<Rightarrow> 'v memory" where
  "merge_loaded l m =
     (let cs = (\<lambda>key. case object_collections l key of
                        None \<Rightarrow> collections m key
                      | Some lc \<Rightarrow>
                          Some ((case collections m key of None \<Rightarrow> Map.empty | Some c \<Rightarrow> c) ++ lc))
      in case object_intervals l of
           None \<Rightarrow> m\<lparr>collections := cs\<rparr>
         | Some (t, v) \<Rightarrow> m\<lparr>collections := cs, save_timer := t, save_value := v\<rparr>)"

definition load_warning :: string where
  "load_warning = ''[memory] cannot load or persist data without storage adapter.''"

text \<open>\<^verbatim>\<open>load\<close>: without a storage adapter it logs a warning and returns.\<close>

definition load :: "('v, 'a) bot \<Rightarrow> js_error + ('v, 'a) bot" where
  "load w =
     (case storage w of
        None \<Rightarrow> Inr (w\<lparr>logged := logged w @ [load_warning]\<rparr>)
      | Some ad \<Rightarrow>
          (case loadMemory ad (storage_state w) of
             Inl e \<Rightarrow> Inl e
           | Inr None \<Rightarrow> Inr w
           | Inr (Some l) \<Rightarrow> Inr (w\<lparr>memory := merge_loaded l (memory w)\<rparr>)))"

text \<open>
  An adapter whose \<^verbatim>\<open>loadMemory\<close> returns exactly the object last passed to
  \<^verbatim>\<open>saveMemory\<close>.
\<close>

definition returns_last_saved :: "('v, 'a) storage_adapter \<Rightarrow> bool" where
  "returns_last_saved ad \<longleftrightarrow>
     (\<forall>obj a. \<exists>a'. saveMemory ad obj a = Inr a' \<and> loadMemory ad a' = Inr (Some obj))"

text \<open>The simplest such adapter keeps the object it was handed.\<close>

definition keeping_adapter :: "('v, 'v memory_object option) storage_adapter" where
  "keeping_adapter = \<lparr>saveMemory = (\<lambda>obj a. Inr (Some obj)), loadMemory = (\<lambda>a. Inr a)\<rparr>"

text \<open>A bot without storage adapter, and one with the keeping adapter and a known user.\<close>

definition bot_without_storage :: "(nat, unit) bot" where
  "bot_without_storage =
     \<lparr>memory = new_memory, storage = None, storage_state = (),
      bot_settings = empty_settings, timers = [], next_timer = 0, logged = []\<rparr>"

definition bot_with_storage :: "(nat, nat memory_object option) bot" where
  "bot_with_storage =
     \<lparr>memory = new_memory\<lparr>collections := [''users'' \<mapsto> [''u1'' \<mapsto> 7], ''rooms'' \<mapsto> Map.empty,
                                           ''private'' \<mapsto> [''k'' \<mapsto> 1]]\<rparr>,
      storage = Some keeping_adapter, storage_state = None,
      bot_settings = set_setting ''autoSave'' (Bool True) empty_settings,
      timers = [], next_timer = 0, logged = []\<rparr>"

section \<open>Regular expressions of the host language\<close>

text \<open>
  \<^verbatim>\<open>condition.ts\<close> builds the source text of a regular expression and hands it to
  \<^verbatim>\<open>new RegExp\<close>; it also uses \<^verbatim>\<open>String.prototype.match\<close> and \<^verbatim>\<open>replace\<close> with
  regular expression literals. These belong to the host language, not to the
  repository; they are modelled here for the syntax the source can produce:
  characters, \<^verbatim>\<open>.\<close>, classes with ranges and the escapes \<^verbatim>\<open>\d \s \w\<close>, the assertions
  \<^verbatim>\<open>^ $ \b \B\<close>, groups (capturing, \<^verbatim>\<open>(?:\<close>, \<^verbatim>\<open>(?=\<close>, \<^verbatim>\<open>(?!\<close>), alternatives, and
  the quantifiers \<^verbatim>\<open>* + ?\<close>, greedy or lazy, with the flags \<^verbatim>\<open>i\<close> and \<^verbatim>\<open>g\<close>.
  Anything else (braces, back references, other flags) is reported as \<open>Unmodelled\<close>
  instead of being guessed. Case is ignored for ASCII letters only.
\<close>

text \<open>
  A member of a character class: one character, a range, or one of the class
  escapes \<^verbatim>\<open>\w \W \s \S \d \D\<close>.
\<close>

datatype class_item =
  CChar char | CRange char char
  | CWord | CNotWord | CSpace | CNotSpace | CDigit | CNotDigit

text \<open>
  The syntax tree. \<open>Group n\<close> is the capturing group number \<open>n\<close>, \<open>Look\<close> a
  lookahead (\<open>True\<close> for \<^verbatim>\<open>(?=\<close>), \<open>Repeat r min max greedy\<close> a quantifier
  (\<open>None\<close> for no upper bound).
\<close>

datatype regex =
  Empty
  | Lit char
  | AnyChar
  | Class bool "class_item list"
  | Bol | Eol | WordB | NotWordB
  | Cat regex regex
  | Alt regex regex
  | Group nat regex
  | NonCapture regex
  | Look bool regex
  | Repeat regex nat "nat option" bool

text \<open>
  The characters of \<^verbatim>\<open>\w\<close>, of \<^verbatim>\<open>\s\<close> and the line terminators, among the code
  units below 256.
\<close>

definition is_word_char :: "char \<Rightarrow> bool" where
  "is_word_char c \<longleftrightarrow> is_lower c \<or> is_upper c \<or> is_digit c \<or> c = CHR ''_''"

definition is_space_char :: "char \<Rightarrow> bool" where
  "is_space_char c \<longleftrightarrow> (of_char c :: nat) \<in> {9, 10, 11, 12, 13, 32, 160}"

definition is_line_terminator :: "char \<Rightarrow> bool" where
  "is_line_terminator c \<longleftrightarrow> (of_char c :: nat) \<in> {10, 13}"

fun in_item :: "class_item \<Rightarrow> char \<Rightarrow> bool" where
  "in_item (CChar a) c = (c = a)"
| "in_item (CRange a b) c = ((of_char a :: nat) \<le> of_char c \<and> (of_char c :: nat) \<le> of_char b)"
| "in_item CWord c = is_word_char c"
| "in_item CNotWord c = (\<not> is_word_char c)"
| "in_item CSpace c = is_space_char c"
| "in_item CNotSpace c = (\<not> is_space_char c)"
| "in_item CDigit c = is_digit c"
| "in_item CNotDigit c = (\<not> is_digit c)"

definition in_items :: "class_item list \<Rightarrow> char \<Rightarrow> bool" where
  "in_items items c = list_ex (\<lambda>i. in_item i c) items"

text \<open>
  With the flag \<^verbatim>\<open>i\<close> a character belongs to a class when it or one of its case
  variants does, and two characters are equal when their upper case forms are.
\<close>

definition class_matches :: "bool \<Rightarrow> class_item list \<Rightarrow> char \<Rightarrow> bool" where
  "class_matches ic items c =
     (if ic then in_items items c \<or> in_items items (to_lower c) \<or> in_items items (to_upper c)
      else in_items items c)"

definition char_matches :: "bool \<Rightarrow> char \<Rightarrow> char \<Rightarrow> bool" where
  "char_matches ic a c = (if ic then to_upper a = to_upper c else a = c)"

text \<open>
  A state of the matcher: the position in the input and the captures made so far,
  latest first.
\<close>

type_synonym mstate = "nat \<times> (nat \<times> string) list"

text \<open>
  Each round of a quantifier starts with the captures of the groups inside it
  cleared.
\<close>

fun groups_in :: "regex \<Rightarrow> nat list" where
  "groups_in (Cat r s) = groups_in r @ groups_in s"
| "groups_in (Alt r s) = groups_in r @ groups_in s"
| "groups_in (Group n r) = n # groups_in r"
| "groups_in (NonCapture r) = groups_in r"
| "groups_in (Look b r) = groups_in r"
| "groups_in (Repeat r mn mx g) = groups_in r"
| "groups_in r = []"

definition clear_groups :: "nat list \<Rightarrow> mstate \<Rightarrow> mstate" where
  "clear_groups gs x = (fst x, filter (\<lambda>(n, s). n \<notin> set gs) (snd x))"

definition less_one :: "nat option \<Rightarrow> nat option" where
  "less_one mx = map_option (\<lambda>n. n - 1) mx"

text \<open>
  The quantifier, after the RepeatMatcher of the language definition: \<open>m\<close> matches
  one round, and the result lists the states that can follow, the preferred one
  first. A round that is not required and consumes nothing is rejected; since a
  round never moves backwards, this is the test \<open>fst x < fst y\<close>.
\<close>

function repeat_matcher ::
  "(mstate \<Rightarrow> mstate list) \<Rightarrow> nat list \<Rightarrow> nat \<Rightarrow> nat \<Rightarrow> nat option \<Rightarrow> bool \<Rightarrow> mstate \<Rightarrow> mstate list" where
  "repeat_matcher m gs len mn mx greedy x =
     (if mx = Some 0 then [x]
      else
        (let more = concat (map (\<lambda>y.
                      if 0 < mn then repeat_matcher m gs len (mn - 1) (less_one mx) greedy y
                      else if fst x < fst y \<and> fst y \<le> len
                           then repeat_matcher m gs len 0 (less_one mx) greedy y
                           else [])
                     (m (clear_groups gs x)))
         in if 0 < mn then more else if greedy then more @ [x] else x # more))"
  by pat_completeness auto
termination
  by (relation "measures [\<lambda>(m, gs, len, mn, mx, greedy, x). mn,
                          \<lambda>(m, gs, len, mn, mx, greedy, x). len - fst x]") auto

text \<open>
  \<^verbatim>\<open>\b\<close> holds where exactly one of the two neighbouring positions holds a word
  character.
\<close>

definition word_at :: "string \<Rightarrow> nat \<Rightarrow> bool" where
  "word_at inp i = (i < length inp \<and> is_word_char (inp ! i))"

definition at_word_boundary :: "string \<Rightarrow> nat \<Rightarrow> bool" where
  "at_word_boundary inp p = ((0 < p \<and> word_at inp (p - 1)) \<noteq> word_at inp p)"

definition step_char :: "string \<Rightarrow> (char \<Rightarrow> bool) \<Rightarrow> mstate \<Rightarrow> mstate list" where
  "step_char inp ok x =
     (if fst x < length inp \<and> ok (inp ! fst x) then [(Suc (fst x), snd x)] else [])"

definition substring :: "string \<Rightarrow> nat \<Rightarrow> nat \<Rightarrow> string" where
  "substring s a b = take (b - a) (drop a s)"

text \<open>
  All the ways the expression matches from a state, in the order in which a
  backtracking matcher tries them: the head of the list is the match the language
  reports.
\<close>

fun matcher :: "regex \<Rightarrow> bool \<Rightarrow> string \<Rightarrow> mstate \<Rightarrow> mstate list" where
  "matcher Empty ic inp x = [x]"
| "matcher (Lit a) ic inp x = step_char inp (char_matches ic a) x"
| "matcher AnyChar ic inp x = step_char inp (\<lambda>c. \<not> is_line_terminator c) x"
| "matcher (Class neg items) ic inp x = step_char inp (\<lambda>c. class_matches ic items c \<noteq> neg) x"
| "matcher Bol ic inp x = (if fst x = 0 then [x] else [])"
| "matcher Eol ic inp x = (if fst x = length inp then [x] else [])"
| "matcher WordB ic inp x = (if at_word_boundary inp (fst x) then [x] else [])"
| "matcher NotWordB ic inp x = (if at_word_boundary inp (fst x) then [] else [x])"
| "matcher (Cat r s) ic inp x = concat (map (matcher s ic inp) (matcher r ic inp x))"
| "matcher (Alt r s) ic inp x = matcher r ic inp x @ matcher s ic inp x"
| "matcher (Group n r) ic inp x =
     map (\<lambda>y. (fst y, (n, substring inp (fst x) (fst y)) # snd y)) (matcher r ic inp x)"
| "matcher (NonCapture r) ic inp x = matcher r ic inp x"
| "matcher (Look positive r) ic inp x =
     (case matcher r ic inp x of
        [] \<Rightarrow> (if positive then [] else [x])
      | y # ys \<Rightarrow> (if positive then [(fst x, snd y)] else []))"
| "matcher (Repeat r mn mx greedy) ic inp x =
     repeat_matcher (matcher r ic inp) (groups_in r) (length inp) mn mx greedy x"

subsection \<open>Reading the source text of a regular expression\<close>

text \<open>
  The pattern is read one character at a time. The parser keeps the groups that
  are still open, innermost first, and a mode that remembers an unfinished token: a
  backslash, an opening parenthesis, or a character class.
\<close>

datatype group_kind = Top | Capturing nat | NonCapturing | Lookahead bool

datatype raw_item = RChar char | RDash | RSet class_item

datatype mode =
  Normal
  | Quantified
  | Escaped
  | GroupOpen
  | GroupQuestion
  | ClassOpen
  | ClassBody bool "raw_item list"
  | ClassEscaped bool "raw_item list"

text \<open>
  An open group: its kind, the alternatives finished so far and the atoms of the
  current one, both latest first.
\<close>

type_synonym open_group = "group_kind \<times> regex list \<times> regex list"

record parser =
  open_groups :: "open_group list"
  parser_mode :: mode
  capture_count :: nat

text \<open>
  The tree of a group: its alternatives, each the sequence of its atoms.
\<close>

fun sequence :: "regex list \<Rightarrow> regex" where
  "sequence [] = Empty"
| "sequence [r] = r"
| "sequence (r # rs) = Cat r (sequence rs)"

fun alternatives :: "regex list \<Rightarrow> regex" where
  "alternatives [] = Empty"
| "alternatives [r] = r"
| "alternatives (r # rs) = Alt r (alternatives rs)"

definition disjunction :: "regex list \<Rightarrow> regex list \<Rightarrow> regex" where
  "disjunction alts atoms = alternatives (rev (sequence (rev atoms) # alts))"

fun close_group :: "group_kind \<Rightarrow> regex \<Rightarrow> regex" where
  "close_group Top r = r"
| "close_group (Capturing n) r = Group n r"
| "close_group NonCapturing r = NonCapture r"
| "close_group (Lookahead positive) r = Look positive r"

definition add_atom :: "regex \<Rightarrow> parser \<Rightarrow> js_error + parser" where
  "add_atom r p =
     (case open_groups p of
        [] \<Rightarrow> Inl (Unmodelled ''no open group'')
      | (k, alts, atoms) # gs \<Rightarrow> Inr (p\<lparr>open_groups := (k, alts, r # atoms) # gs, parser_mode := Normal\<rparr>))"

definition open_new :: "group_kind \<Rightarrow> parser \<Rightarrow> parser" where
  "open_new k p = p\<lparr>open_groups := (k, [], []) # open_groups p, parser_mode := Normal\<rparr>"

text \<open>
  A quantifier applies to the atom before it; it cannot follow an assertion or
  another quantifier. A \<^verbatim>\<open>?\<close> right after a quantifier makes it lazy.
\<close>

fun quantifiable :: "regex \<Rightarrow> bool" where
  "quantifiable Bol = False"
| "quantifiable Eol = False"
| "quantifiable WordB = False"
| "quantifiable NotWordB = False"
| "quantifiable (Repeat r mn mx g) = False"
| "quantifiable r = True"

definition quantify :: "nat \<Rightarrow> nat option \<Rightarrow> parser \<Rightarrow> js_error + parser" where
  "quantify mn mx p =
     (case open_groups p of
        (k, alts, r # atoms) # gs \<Rightarrow>
          if quantifiable r
          then Inr (p\<lparr>open_groups := (k, alts, Repeat r mn mx True # atoms) # gs, parser_mode := Quantified\<rparr>)
          else Inl (SyntaxError ''Nothing to repeat'')
      | _ \<Rightarrow> Inl (SyntaxError ''Nothing to repeat''))"

definition make_lazy :: "parser \<Rightarrow> js_error + parser" where
  "make_lazy p =
     (case open_groups p of
        (k, alts, Repeat r mn mx g # atoms) # gs \<Rightarrow>
          Inr (p\<lparr>open_groups := (k, alts, Repeat r mn mx False # atoms) # gs, parser_mode := Normal\<rparr>)
      | _ \<Rightarrow> Inl (SyntaxError ''Nothing to repeat''))"

definition next_alternative :: "parser \<Rightarrow> js_error + parser" where
  "next_alternative p =
     (case open_groups p of
        [] \<Rightarrow> Inl (Unmodelled ''no open group'')
      | (k, alts, atoms) # gs \<Rightarrow>
          Inr (p\<lparr>open_groups := (k, sequence (rev atoms) # alts, []) # gs, parser_mode := Normal\<rparr>))"

definition close_current :: "parser \<Rightarrow> js_error + parser" where
  "close_current p =
     (case open_groups p of
        (k, alts, atoms) # g # gs \<Rightarrow>
          add_atom (close_group k (disjunction alts atoms)) (p\<lparr>open_groups := g # gs\<rparr>)
      | _ \<Rightarrow> Inl (SyntaxError ''Unmatched )''))"

definition character :: "nat \<Rightarrow> char" where
  "character n = char_of n"

text \<open>The escapes that mean the same inside and outside a class.\<close>

definition class_escape :: "char \<Rightarrow> (js_error + class_item) option" where
  "class_escape c =
     (if c = CHR ''d'' then Some (Inr CDigit)
      else if c = CHR ''D'' then Some (Inr CNotDigit)
      else if c = CHR ''s'' then Some (Inr CSpace)
      else if c = CHR ''S'' then Some (Inr CNotSpace)
      else if c = CHR ''w'' then Some (Inr CWord)
      else if c = CHR ''W'' then Some (Inr CNotWord)
      else if c = CHR ''t'' then Some (Inr (CChar (character 9)))
      else if c = CHR ''n'' then Some (Inr (CChar (character 10)))
      else if c = CHR ''v'' then Some (Inr (CChar (character 11)))
      else if c = CHR ''f'' then Some (Inr (CChar (character 12)))
      else if c = CHR ''r'' then Some (Inr (CChar (character 13)))
      else if is_digit c \<or> c \<in> set ''cxukpP''
        then Some (Inl (Unmodelled ''escape''))
      else None)"

definition escaped_atom :: "char \<Rightarrow> js_error + regex" where
  "escaped_atom c =
     (if c = CHR ''b'' then Inr WordB
      else if c = CHR ''B'' then Inr NotWordB
      else case class_escape c of
             Some (Inl e) \<Rightarrow> Inl e
           | Some (Inr (CChar a)) \<Rightarrow> Inr (Lit a)
           | Some (Inr item) \<Rightarrow> Inr (Class False [item])
           | None \<Rightarrow> Inr (Lit c))"

definition escaped_raw :: "char \<Rightarrow> js_error + raw_item" where
  "escaped_raw c =
     (if c = CHR ''b'' then Inr (RChar (character 8))
      else case class_escape c of
             Some (Inl e) \<Rightarrow> Inl e
           | Some (Inr (CChar a)) \<Rightarrow> Inr (RChar a)
           | Some (Inr item) \<Rightarrow> Inr (RSet item)
           | None \<Rightarrow> Inr (RChar c))"

text \<open>
  The members of a class once it is closed: an unescaped \<^verbatim>\<open>-\<close> between two
  characters makes a range, elsewhere it stands for itself.
\<close>

fun class_items :: "raw_item list \<Rightarrow> js_error + class_item list" where
  "class_items (RChar a # RDash # RChar b # rs) =
     (if (of_char b :: nat) < of_char a then Inl (SyntaxError ''Range out of order in character class'')
      else case class_items rs of Inl e \<Rightarrow> Inl e | Inr items \<Rightarrow> Inr (CRange a b # items))"
| "class_items (RChar a # rs) =
     (case class_items rs of Inl e \<Rightarrow> Inl e | Inr items \<Rightarrow> Inr (CChar a # items))"
| "class_items (RDash # rs) =
     (case class_items rs of Inl e \<Rightarrow> Inl e | Inr items \<Rightarrow> Inr (CChar CHR ''-'' # items))"
| "class_items (RSet s # rs) =
     (case class_items rs of Inl e \<Rightarrow> Inl e | Inr items \<Rightarrow> Inr (s # items))"
| "class_items [] = Inr []"

definition close_class :: "bool \<Rightarrow> raw_item list \<Rightarrow> parser \<Rightarrow> js_error + parser" where
  "close_class neg raws p =
     (case class_items (rev raws) of
        Inl e \<Rightarrow> Inl e
      | Inr items \<Rightarrow> add_atom (Class neg items) p)"

text \<open>
  One character outside a class and outside an unfinished token.
\<close>

definition normal_char :: "char \<Rightarrow> parser \<Rightarrow> js_error + parser" where
  "normal_char c p =
     (if c = CHR 0x5C then Inr (p\<lparr>parser_mode := Escaped\<rparr>)
      else if c = CHR ''('' then Inr (p\<lparr>parser_mode := GroupOpen\<rparr>)
      else if c = CHR '')'' then close_current p
      else if c = CHR ''['' then Inr (p\<lparr>parser_mode := ClassOpen\<rparr>)
      else if c = CHR ''{'' then Inl (Unmodelled ''braces'')
      else if c = CHR ''*'' then quantify 0 None p
      else if c = CHR ''+'' then quantify 1 None p
      else if c = CHR ''?'' then quantify 0 (Some 1) p
      else if c = CHR ''|'' then next_alternative p
      else if c = CHR ''^'' then add_atom Bol p
      else if c = CHR ''$'' then add_atom Eol p
      else if c = CHR ''.'' then add_atom AnyChar p
      else add_atom (Lit c) p)"

definition class_char :: "bool \<Rightarrow> raw_item list \<Rightarrow> char \<Rightarrow> parser \<Rightarrow> js_error + parser" where
  "class_char neg raws c p =
     (if c = CHR '']'' then close_class neg raws p
      else if c = CHR 0x5C then Inr (p\<lparr>parser_mode := ClassEscaped neg raws\<rparr>)
      else if c = CHR ''-'' then Inr (p\<lparr>parser_mode := ClassBody neg (RDash # raws)\<rparr>)
      else Inr (p\<lparr>parser_mode := ClassBody neg (RChar c # raws)\<rparr>))"

definition parse_char :: "char \<Rightarrow> parser \<Rightarrow> js_error + parser" where
  "parse_char c p =
     (case parser_mode p of
        Normal \<Rightarrow> normal_char c p
      | Quantified \<Rightarrow> (if c = CHR ''?'' then make_lazy p else normal_char c p)
      | Escaped \<Rightarrow> (case escaped_atom c of Inl e \<Rightarrow> Inl e | Inr r \<Rightarrow> add_atom r p)
      | GroupOpen \<Rightarrow>
          (if c = CHR ''?'' then Inr (p\<lparr>parser_mode := GroupQuestion\<rparr>)
           else normal_char c (open_new (Capturing (Suc (capture_count p))) (p\<lparr>capture_count := Suc (capture_count p)\<rparr>)))
      | GroupQuestion \<Rightarrow>
          (if c = CHR '':'' then Inr (open_new NonCapturing p)
           else if c = CHR ''='' then Inr (open_new (Lookahead True) p)
           else if c = CHR ''!'' then Inr (open_new (Lookahead False) p)
           else if c = CHR ''<'' then Inl (Unmodelled ''lookbehind or named group'')
           else Inl (SyntaxError ''Invalid group''))
      | ClassOpen \<Rightarrow>
          (if c = CHR ''^'' then Inr (p\<lparr>parser_mode := ClassBody True []\<rparr>) else class_char False [] c p)
      | ClassBody neg raws \<Rightarrow> class_char neg raws c p
      | ClassEscaped neg raws \<Rightarrow>
          (case escaped_raw c of
             Inl e \<Rightarrow> Inl e
           | Inr r \<Rightarrow> Inr (p\<lparr>parser_mode := ClassBody neg (r # raws)\<rparr>)))"

fun parse_chars :: "string \<Rightarrow> parser \<Rightarrow> js_error + parser" where
  "parse_chars [] p = Inr p"
| "parse_chars (c # cs) p = (case parse_char c p of Inl e \<Rightarrow> Inl e | Inr p' \<Rightarrow> parse_chars cs p')"

text \<open>
  At the end of the text every group must be closed and no token unfinished.
\<close>

definition finish :: "parser \<Rightarrow> js_error + regex \<times> nat" where
  "finish p =
     (case parser_mode p of
        Normal \<Rightarrow>
          (case open_groups p of
             [(Top, alts, atoms)] \<Rightarrow> Inr (disjunction alts atoms, capture_count p)
           | _ \<Rightarrow> Inl (SyntaxError ''Unterminated group''))
      | Quantified \<Rightarrow>
          (case open_groups p of
             [(Top, alts, atoms)] \<Rightarrow> Inr (disjunction alts atoms, capture_count p)
           | _ \<Rightarrow> Inl (SyntaxError ''Unterminated group''))
      | Escaped \<Rightarrow> Inl (SyntaxError ''backslash at end of pattern'')
      | GroupOpen \<Rightarrow> Inl (SyntaxError ''Unterminated group'')
      | GroupQuestion \<Rightarrow> Inl (SyntaxError ''Invalid group'')
      | _ \<Rightarrow> Inl (SyntaxError ''Unterminated character class''))"

definition parse_pattern :: "string \<Rightarrow> js_error + regex \<times> nat" where
  "parse_pattern src =
     (case parse_chars src \<lparr>open_groups = [(Top, [], [])], parser_mode = Normal, capture_count = 0\<rparr> of
        Inl e \<Rightarrow> Inl e
      | Inr p \<Rightarrow> finish p)"

text \<open>
  A string literal of this theory cannot hold a backslash. The literals of the
  source that contain one are written with \<^verbatim>\<open>%\<close> in its place and passed through
  \<open>bs\<close>; none of them contains a percent sign.
\<close>

definition bs :: "string \<Rightarrow> string" where
  "bs s = map (\<lambda>c. if c = CHR ''%'' then CHR 0x5C else c) s"

subsection \<open>RegExp objects, match and replace\<close>

text \<open>
  A RegExp object: its source, its flags, and the tree and number of capturing
  groups the source was compiled to.
\<close>

record regexp =
  re_source :: string
  re_ignoreCase :: bool
  re_global :: bool
  pattern :: regex
  group_count :: nat

text \<open>
  \<^verbatim>\<open>new RegExp(source, flags)\<close> throws a SyntaxError on an invalid pattern or flag.
\<close>

definition new_RegExp :: "string \<Rightarrow> string \<Rightarrow> js_error + regexp" where
  "new_RegExp src flags =
     (if \<not> distinct flags \<or> \<not> list_all (\<lambda>c. c \<in> set ''gimsuy'') flags
        then Inl (SyntaxError ''Invalid flags'')
      else if \<not> list_all (\<lambda>c. c \<in> set ''gi'') flags then Inl (Unmodelled ''flags'')
      else case parse_pattern src of
             Inl e \<Rightarrow> Inl e
           | Inr (r, n) \<Rightarrow>
               Inr \<lparr>re_source = src, re_ignoreCase = (CHR ''i'' \<in> set flags),
                    re_global = (CHR ''g'' \<in> set flags), pattern = r, group_count = n\<rparr>)"

text \<open>
  A match: where it starts, where it ends, and the text of each capture group that
  took part.
\<close>

record found =
  index :: nat
  end_index :: nat
  captured_groups :: "(nat \<times> string) list"

text \<open>
  \<^verbatim>\<open>RegExp.prototype.exec\<close> from \<^verbatim>\<open>lastIndex\<close>: the first position from there at which
  the expression matches, with the preferred match at that position.
\<close>

definition match_at :: "regexp \<Rightarrow> string \<Rightarrow> nat \<Rightarrow> found option" where
  "match_at re inp i =
     (case matcher (pattern re) (re_ignoreCase re) inp (i, []) of
        [] \<Rightarrow> None
      | y # ys \<Rightarrow> Some \<lparr>index = i, end_index = fst y, captured_groups = snd y\<rparr>)"

fun first_match :: "regexp \<Rightarrow> string \<Rightarrow> nat list \<Rightarrow> found option" where
  "first_match re inp [] = None"
| "first_match re inp (i # is) =
     (case match_at re inp i of None \<Rightarrow> first_match re inp is | Some m \<Rightarrow> Some m)"

definition regexp_exec :: "regexp \<Rightarrow> string \<Rightarrow> nat \<Rightarrow> found option" where
  "regexp_exec re inp lastIndex = first_match re inp [lastIndex ..< Suc (length inp)]"

text \<open>
  The successive matches of a global expression: the search resumes where the last
  match ended, one further after an empty match.
\<close>

function all_matches :: "regexp \<Rightarrow> string \<Rightarrow> nat \<Rightarrow> found list" where
  "all_matches re inp lastIndex =
     (case regexp_exec re inp lastIndex of
        None \<Rightarrow> []
      | Some m \<Rightarrow>
          (let next = (if end_index m \<le> index m then Suc (index m) else end_index m)
           in m # (if lastIndex < next \<and> next \<le> Suc (length inp) then all_matches re inp next else [])))"
  by pat_completeness auto
termination
  by (relation "measure (\<lambda>(re, inp, lastIndex). Suc (length inp) - lastIndex)") auto

definition matched_text :: "string \<Rightarrow> found \<Rightarrow> string" where
  "matched_text inp m = substring inp (index m) (end_index m)"

definition group_text :: "found \<Rightarrow> nat \<Rightarrow> string option" where
  "group_text m n = map_of (captured_groups m) n"

text \<open>The array of a match: the matched text, then the groups, \<open>None\<close> for \<^verbatim>\<open>undefined\<close>.\<close>

definition match_array :: "regexp \<Rightarrow> string \<Rightarrow> found \<Rightarrow> string option list" where
  "match_array re inp m = Some (matched_text inp m) # map (group_text m) [1 ..< Suc (group_count re)]"

text \<open>
  \<^verbatim>\<open>str.match(re)\<close>: \<open>None\<close> for \<^verbatim>\<open>null\<close>; for a global expression the array of all
  matched texts, otherwise the array of the first match.
\<close>

definition string_match :: "string \<Rightarrow> regexp \<Rightarrow> string option list option" where
  "string_match str re =
     (if re_global re then
        (case all_matches re str 0 of
           [] \<Rightarrow> None
         | ms \<Rightarrow> Some (map (\<lambda>m. Some (matched_text str m)) ms))
      else map_option (match_array re str) (regexp_exec re str 0))"

text \<open>
  \<^verbatim>\<open>str.replace(re, replacement)\<close>, the replacement given as a function of the
  match.
\<close>

fun replace_found :: "string \<Rightarrow> (found \<Rightarrow> string) \<Rightarrow> nat \<Rightarrow> found list \<Rightarrow> string" where
  "replace_found str f pos [] = drop pos str"
| "replace_found str f pos (m # ms) =
     substring str pos (index m) @ f m @ replace_found str f (end_index m) ms"

definition string_replace :: "string \<Rightarrow> regexp \<Rightarrow> (found \<Rightarrow> string) \<Rightarrow> string" where
  "string_replace str re f =
     replace_found str f 0
       (if re_global re then all_matches re str 0
        else (case regexp_exec re str 0 of None \<Rightarrow> [] | Some m \<Rightarrow> [m]))"

section \<open>Conditions: from condition to regular expression (condition.ts)\<close>

text \<open>
  An exception ends the computation: \<open>and_then\<close> passes a result on and an error
  through, \<open>each\<close> does so along a list.
\<close>

definition and_then :: "js_error + 'a \<Rightarrow> ('a \<Rightarrow> js_error + 'b) \<Rightarrow> js_error + 'b" where
  "and_then r f = (case r of Inl e \<Rightarrow> Inl e | Inr a \<Rightarrow> f a)"

fun each :: "('a \<Rightarrow> js_error + 'b) \<Rightarrow> 'a list \<Rightarrow> js_error + 'b list" where
  "each f [] = Inr []"
| "each f (x # xs) = and_then (f x) (\<lambda>y. and_then (each f xs) (\<lambda>ys. Inr (y # ys)))"

text \<open>
  \<^verbatim>\<open>s.indexOf(sub) === 0\<close>; \<^verbatim>\<open>s.replace(sub, new)\<close> with a string pattern (first
  occurrence); \<^verbatim>\<open>array.join(sep)\<close>; \<^verbatim>\<open>s.split(d)\<close>.
\<close>

definition starts_with :: "string \<Rightarrow> string \<Rightarrow> bool" where
  "starts_with sub s = (take (length sub) s = sub)"

fun replace_first :: "string \<Rightarrow> string \<Rightarrow> string \<Rightarrow> string" where
  "replace_first [] sub new = (if sub = [] then new else [])"
| "replace_first (c # cs) sub new =
     (if starts_with sub (c # cs) then new @ drop (length sub) (c # cs)
      else c # replace_first cs sub new)"

fun join :: "string \<Rightarrow> string list \<Rightarrow> string" where
  "join sep [] = []"
| "join sep [s] = s"
| "join sep (s # ss) = s @ sep @ join sep ss"

fun split_on :: "char \<Rightarrow> string \<Rightarrow> string list" where
  "split_on d [] = [] # []"
| "split_on d (c # cs) =
     (case split_on d cs of
        [] \<Rightarrow> [c] # []
      | piece # pieces \<Rightarrow> if c = d then [] # piece # pieces else (c # piece) # pieces)"

text \<open>
  A condition is an object from condition keys to a string or a list of strings,
  in the order of \<^verbatim>\<open>Object.keys\<close>. The type admits a key whose value is
  \<^verbatim>\<open>undefined\<close>.
\<close>

datatype cond_key = Is | Starts | Ends | Contains | Excludes | After | Before | Range

datatype cond_value = One string | Many "string list" | Undefined

type_synonym condition = "(cond_key \<times> cond_value) list"

text \<open>
  The options; \<open>None\<close> is an option that is not given.
  \<^verbatim>\<open>Object.assign({}, _defaults, options)\<close> takes each option given and the default
  otherwise.
\<close>

record condition_options =
  matchWord :: "bool option"
  ignoreCase :: "bool option"
  ignorePunctuation :: "bool option"

definition defaults :: condition_options where
  "defaults = \<lparr>matchWord = Some True, ignoreCase = Some True, ignorePunctuation = Some False\<rparr>"

definition no_options :: condition_options where
  "no_options = \<lparr>matchWord = None, ignoreCase = None, ignorePunctuation = None\<rparr>"

definition or_else :: "'a option \<Rightarrow> 'a option \<Rightarrow> 'a option" where
  "or_else given fallback = (case given of None \<Rightarrow> fallback | Some v \<Rightarrow> Some v)"

definition assign_options :: "condition_options \<Rightarrow> condition_options \<Rightarrow> condition_options" where
  "assign_options base options =
     \<lparr>matchWord = or_else (matchWord options) (matchWord base),
      ignoreCase = or_else (ignoreCase options) (ignoreCase base),
      ignorePunctuation = or_else (ignorePunctuation options) (ignorePunctuation base)\<rparr>"

definition enabled :: "bool option \<Rightarrow> bool" where
  "enabled flag = (flag = Some True)"

text \<open>
  \<^verbatim>\<open>fromString (str)\<close>: the text must have the form \<^verbatim>\<open>/pattern/flags\<close>.
\<close>

definition fromString :: "string \<Rightarrow> js_error + regexp" where
  "fromString str =
     and_then (new_RegExp (bs ''^/(.+)/(.*)$'') []) (\<lambda>literal.
       case string_match str literal of
         Some [whole, Some body, Some flags] \<Rightarrow> new_RegExp body flags
       | _ \<Rightarrow> Inl (Error (''[expression] '' @ str @ '' can not convert to expression'')))"

text \<open>
  \<^verbatim>\<open>escape (str)\<close> puts a backslash before each special character; with
  \<^verbatim>\<open>ignorePunctuation\<close> every character that is not a backslash, a word character
  or white space is followed by \<^verbatim>\<open>+\<close>.
\<close>

definition escape :: "string \<Rightarrow> js_error + string" where
  "escape str =
     and_then (new_RegExp (bs ''[%-%[%]%/%{%}%(%)%*%+%?%.%%%^%$%|]'') ''g'') (\<lambda>special.
       Inr (string_replace str special (\<lambda>m. CHR 0x5C # matched_text str m)))"

definition optional_punctuation :: "string \<Rightarrow> js_error + string" where
  "optional_punctuation v =
     and_then (new_RegExp (bs ''([^%%%w%s])'') ''g'') (\<lambda>punctuation.
       Inr (string_replace v punctuation
              (\<lambda>m. (case group_text m 1 of None \<Rightarrow> [] | Some g \<Rightarrow> g) @ ''+'')))"

text \<open>
  The \<^verbatim>\<open>switch\<close> of \<^verbatim>\<open>fromCondition\<close>: the pattern of one key, \<open>v\<close> being its
  values joined by \<^verbatim>\<open>|\<close>. \<^verbatim>\<open>rangeRegex\<close> is the function of the package
  \<^verbatim>\<open>to-regex-range\<close>, a parameter of the model.
\<close>

definition pattern_of ::
  "(string \<Rightarrow> string option \<Rightarrow> string) \<Rightarrow> string \<Rightarrow> string \<Rightarrow> cond_key \<Rightarrow> string \<Rightarrow> string" where
  "pattern_of rangeRegex b p type v =
     (case type of
        Is \<Rightarrow> ''^('' @ v @ '')$''
      | Starts \<Rightarrow> ''^(?:'' @ v @ '')'' @ b
      | Ends \<Rightarrow> b @ ''(?:'' @ v @ '')$''
      | Contains \<Rightarrow> b @ ''('' @ v @ '')'' @ b
      | Excludes \<Rightarrow> ''^((?!'' @ b @ v @ b @ '').)*$''
      | After \<Rightarrow> ''(?:'' @ v @ bs ''%s?)([%w%-%s'' @ p @ '']+)''
      | Before \<Rightarrow> bs ''([%w%-%s'' @ p @ '']+)(?:'' @ bs ''%s?'' @ v @ '')''
      | Range \<Rightarrow>
          b @ ''('' @
            (case split_on CHR ''-'' v of
               lo # hi # rest \<Rightarrow> rangeRegex lo (Some hi)
             | [lo] \<Rightarrow> rangeRegex lo None
             | [] \<Rightarrow> rangeRegex [] None)
            @ '')'' @ b)"

definition key_pattern ::
  "(string \<Rightarrow> string option \<Rightarrow> string) \<Rightarrow> condition_options \<Rightarrow> cond_key \<times> cond_value \<Rightarrow>
     js_error + string" where
  "key_pattern rangeRegex cfg entry =
     (let type = fst entry;
          b = (if enabled (matchWord cfg) then bs ''%b'' else []);
          p = (if enabled (ignorePunctuation cfg)
               then bs ''%,%-%:%[%]%/%(%)%+%?%.%'' @ [CHR 0x27] @ bs ''%$''
               else bs ''%,%-%:'')
      in and_then
           (case snd entry of
              One v \<Rightarrow> Inr [v]
            | Many vs \<Rightarrow> Inr vs
            | Undefined \<Rightarrow> Inl (TypeError ''Cannot read property map of undefined''))
           (\<lambda>values.
              and_then (each (\<lambda>v. if type = Range then Inr v else escape v) values) (\<lambda>escaped.
              and_then (if enabled (ignorePunctuation cfg) then each optional_punctuation escaped
                        else Inr escaped) (\<lambda>final.
              Inr (pattern_of rangeRegex b p type (join ''|'' final))))))"

text \<open>
  The second loop of \<^verbatim>\<open>fromCondition\<close>, for a pattern \<open>pat\<close> that has a successor
  \<open>nxt\<close>: if the second group of \<open>pat\<close> begins \<open>nxt\<close>, its first occurrence is
  removed from \<open>pat\<close>; then \<open>pat\<close> is replaced by its groups, joined, each capturing
  group turned into a non-capturing one. The loop stops at the last pattern, or
  before an empty one.
\<close>

definition uncapture :: "regexp \<Rightarrow> string \<Rightarrow> string \<Rightarrow> string" where
  "uncapture grouping pat nxt =
     (let pat1 = (case string_match pat grouping of
                    Some (g0 # Some g1 # gs) \<Rightarrow>
                      if g1 \<noteq> [] \<and> starts_with g1 nxt then replace_first pat g1 [] else pat
                  | _ \<Rightarrow> pat)
      in case string_match pat1 grouping of
           None \<Rightarrow> pat1
         | Some newGroups \<Rightarrow>
             concat (map (\<lambda>g. case g of
                                None \<Rightarrow> []
                              | Some grp \<Rightarrow>
                                  if \<not> starts_with ''(?'' grp then replace_first grp ''('' ''(?:''
                                  else grp)
                         newGroups))"

fun uncapture_all :: "regexp \<Rightarrow> string list \<Rightarrow> string list" where
  "uncapture_all grouping (pat # nxt # rest) =
     (if nxt = [] then pat # nxt # rest
      else uncapture grouping pat nxt # uncapture_all grouping (nxt # rest))"
| "uncapture_all grouping patterns = patterns"

text \<open>
  \<^verbatim>\<open>fromCondition (condition, options)\<close>.
\<close>

definition fromCondition ::
  "(string \<Rightarrow> string option \<Rightarrow> string) \<Rightarrow> condition \<Rightarrow> condition_options \<Rightarrow> js_error + regexp" where
  "fromCondition rangeRegex condition options =
     (let cfg = assign_options defaults options;
          i = (if enabled (ignoreCase cfg) then ''i'' else [])
      in and_then (each (key_pattern rangeRegex cfg) condition) (\<lambda>patterns.
         and_then (new_RegExp (bs ''(%(.+?%))'') ''g'') (\<lambda>grouping.
           if patterns = [] then new_RegExp ''.*'' i
           else new_RegExp (concat (uncapture_all grouping patterns)) i)))"

subsection \<open>The class Conditions\<close>

text \<open>
  An expression is stored under the given key or, without one, under the number of
  expressions so far; a number used as a property name is its decimal text.
  \<open>parses_as_int key\<close> is \<^verbatim>\<open>!isNaN(parseInt(key, 10))\<close>.
\<close>

function decimal :: "nat \<Rightarrow> string" where
  "decimal n = (if n < 10 then [char_of (48 + n)] else decimal (n div 10) @ [char_of (48 + n mod 10)])"
  by pat_completeness auto
termination
  by (relation "measure id") auto

definition parses_as_int :: "string \<Rightarrow> bool" where
  "parses_as_int key =
     (case dropWhile is_space_char key of
        [] \<Rightarrow> False
      | c # cs \<Rightarrow>
          if c = CHR ''+'' \<or> c = CHR ''-'' then (case cs of [] \<Rightarrow> False | d # ds \<Rightarrow> is_digit d)
          else is_digit c)"

text \<open>
  What the constructor accepts: nothing, a string, a RegExp, a condition, a list
  of these, or a collection of named conditions.
\<close>

datatype expression_input = FromString string | FromRegExp regexp | FromCondition condition

datatype conditions_input =
  Nothing
  | Single expression_input
  | Several "expression_input list"
  | Collection "(string \<times> condition) list"

text \<open>
  The fields of a \<^verbatim>\<open>Conditions\<close> object; the three objects are association lists
  in insertion order.
\<close>

record conditions =
  conditions_config :: condition_options
  expressions :: "(string \<times> regexp) list"
  matches :: "(string \<times> string option list option) list"
  captures :: "(string \<times> string option) list"

text \<open>
  \<^verbatim>\<open>add (condition, key?)\<close>.
\<close>

definition add_expression ::
  "(string \<Rightarrow> string option \<Rightarrow> string) \<Rightarrow> expression_input \<Rightarrow> string option \<Rightarrow> conditions \<Rightarrow>
     js_error + conditions" where
  "add_expression rangeRegex condition key c =
     (let k = (case key of
                 None \<Rightarrow> decimal (length (expressions c))
               | Some name \<Rightarrow> if name = [] then decimal (length (expressions c)) else name)
      in and_then
           (case condition of
              FromRegExp re \<Rightarrow> Inr re
            | FromString str \<Rightarrow> fromString str
            | FromCondition cond \<Rightarrow> fromCondition rangeRegex cond (conditions_config c))
           (\<lambda>re. Inr (c\<lparr>expressions := AList.update k re (expressions c)\<rparr>)))"

fun add_each ::
  "(string \<Rightarrow> string option \<Rightarrow> string) \<Rightarrow> (expression_input \<times> string option) list \<Rightarrow> conditions \<Rightarrow>
     js_error + conditions" where
  "add_each rangeRegex [] c = Inr c"
| "add_each rangeRegex ((condition, key) # rest) c =
     and_then (add_expression rangeRegex condition key c) (add_each rangeRegex rest)"

text \<open>
  The type guards: a condition has at least one key (its keys are valid by type);
  a collection has at least one entry and only conditions as values.
\<close>

definition condition_key_names :: "string list" where
  "condition_key_names =
     [''is'', ''starts'', ''ends'', ''contains'', ''excludes'', ''after'', ''before'', ''range'']"

definition isCondition :: "condition \<Rightarrow> bool" where
  "isCondition c = (c \<noteq> [])"

definition isConditionCollection :: "(string \<times> condition) list \<Rightarrow> bool" where
  "isConditionCollection c = (c \<noteq> [] \<and> list_all (\<lambda>entry. isCondition (snd entry)) c)"

text \<open>
  The constructor. An object is tested as a condition first, so a collection all
  of whose names are condition keys is taken for a condition, and its values, not
  being strings or arrays, make \<^verbatim>\<open>fromCondition\<close> throw.
\<close>

definition new_Conditions ::
  "(string \<Rightarrow> string option \<Rightarrow> string) \<Rightarrow> conditions_input \<Rightarrow> condition_options \<Rightarrow>
     js_error + conditions" where
  "new_Conditions rangeRegex condition options =
     (let c = \<lparr>conditions_config = assign_options defaults options, expressions = [],
                matches = [], captures = []\<rparr>
      in case condition of
           Nothing \<Rightarrow> Inr c
         | Single (FromString str) \<Rightarrow>
             if str = [] then Inr c else add_expression rangeRegex (FromString str) None c
         | Single (FromRegExp re) \<Rightarrow> add_expression rangeRegex (FromRegExp re) None c
         | Single (FromCondition cond) \<Rightarrow>
             if isCondition cond then add_expression rangeRegex (FromCondition cond) None c
             else Inr c
         | Several inputs \<Rightarrow> add_each rangeRegex (map (\<lambda>input. (input, None)) inputs) c
         | Collection named \<Rightarrow>
             if named \<noteq> [] \<and> list_all (\<lambda>entry. fst entry \<in> set condition_key_names) named
             then Inl (TypeError ''value.map is not a function'')
             else if isConditionCollection named
             then add_each rangeRegex (map (\<lambda>entry. (FromCondition (snd entry), Some (fst entry))) named) c
             else Inr c)"

text \<open>
  \<^verbatim>\<open>exec (str)\<close>: for every expression, the match and, when the match has a first
  group, that group stripped of the characters \<^verbatim>\<open>, - :\<close> and white space at both
  ends.
\<close>

definition trim_capture :: "string \<Rightarrow> js_error + string" where
  "trim_capture s =
     and_then (new_RegExp (bs ''(^[%,%-%:%s]*)|([%,%-%:%s]*$)'') ''g'') (\<lambda>edges.
       Inr (string_replace s edges (\<lambda>m. [])))"

fun exec_each :: "string \<Rightarrow> (string \<times> regexp) list \<Rightarrow> conditions \<Rightarrow> js_error + conditions" where
  "exec_each str [] c = Inr c"
| "exec_each str ((key, re) # rest) c =
     (let found = string_match str re
      in and_then
           (case found of
              Some (whole # Some first # groups) \<Rightarrow> and_then (trim_capture first) (\<lambda>t. Inr (Some t))
            | _ \<Rightarrow> Inr None)
           (\<lambda>capture.
              exec_each str rest
                (c\<lparr>matches := AList.update key found (matches c),
                   captures := AList.update key capture (captures c)\<rparr>)))"

definition exec :: "string \<Rightarrow> conditions \<Rightarrow> js_error + conditions" where
  "exec str c = exec_each str (expressions c) c"

text \<open>
  The getters \<^verbatim>\<open>success\<close> and \<^verbatim>\<open>captured\<close>.
\<close>

definition success :: "conditions \<Rightarrow> bool" where
  "success c = list_all (\<lambda>entry. snd entry \<noteq> None) (matches c)"

datatype captured_value = AllCaptures "(string \<times> string option) list" | OneCapture "string option" | NoCapture

definition captured :: "conditions \<Rightarrow> captured_value" where
  "captured c =
     (let matchKeys = map fst (matches c)
      in if 1 < length matchKeys \<or> list_ex (\<lambda>key. \<not> parses_as_int key) matchKeys
           then AllCaptures (captures c)
         else case matchKeys of
                [key] \<Rightarrow> OneCapture (case map_of (captures c) key of None \<Rightarrow> None | Some v \<Rightarrow> v)
              | _ \<Rightarrow> NoCapture)"

text \<open>
  For a freshly built \<^verbatim>\<open>Conditions\<close>: the sources of its expressions, and the
  values of \<^verbatim>\<open>success\<close> and \<^verbatim>\<open>captured\<close> after \<^verbatim>\<open>exec(str)\<close>.
\<close>

definition expression_sources :: "js_error + conditions \<Rightarrow> js_error + string list" where
  "expression_sources built =
     and_then built (\<lambda>c. Inr (map (\<lambda>entry. re_source (snd entry)) (expressions c)))"

definition exec_outcome :: "string \<Rightarrow> js_error + conditions \<Rightarrow> js_error + bool \<times> captured_value" where
  "exec_outcome str built =
     and_then built (\<lambda>c. and_then (exec str c) (\<lambda>c'. Inr (success c', captured c')))"

text \<open>
  A stand-in for \<^verbatim>\<open>rangeRegex\<close> where no condition has the key \<^verbatim>\<open>range\<close>.
\<close>

definition no_ranges :: "string \<Rightarrow> string option \<Rightarrow> string" where
  "no_ranges lo hi = []"

section \<open>Middleware: executing a stack of pieces (middleware.ts)\<close>

text \<open>
  A \<^verbatim>\<open>done\<close> function. The one \<^verbatim>\<open>reduceStack\<close> starts with is
  \<^verbatim>\<open>() => resolve(b)\<close>. A piece may hand \<^verbatim>\<open>next\<close> a replacement, a function with
  logic of its own (named by a label here). The replacement calls the done it wraps
  before it returns (\<open>Wrap\<close>), or it calls no done at all (\<open>Drop\<close>), or it returns
  first and calls the done it wraps later, behind an \<^verbatim>\<open>await\<close> or from a timer or
  another callback (\<open>Defer\<close>); the number given to \<open>Defer\<close> says how many suspension
  points of the execution pass before that later call is made. Done functions are
  taken not to throw.
\<close>

datatype done_fn = Resolve | Wrap string done_fn | Drop string | Defer nat string done_fn

text \<open>The done function calls \<^verbatim>\<open>resolve\<close> before it returns.\<close>

fun reaches_resolve :: "done_fn \<Rightarrow> bool" where
  "reaches_resolve Resolve = True"
| "reaches_resolve (Wrap l d) = reaches_resolve d"
| "reaches_resolve (Drop l) = False"
| "reaches_resolve (Defer n l d) = False"

text \<open>
  What a piece does with the two functions it receives, any number of times and in
  any order. Before the promise it returns settles, it calls \<^verbatim>\<open>next()\<close>,
  \<^verbatim>\<open>next(newDone)\<close> (the new done is built from the done the piece was given) or
  \<^verbatim>\<open>done()\<close>, and it waits in an \<^verbatim>\<open>await\<close> of its own (\<open>Wait\<close>, one suspension point).
  It may also leave a call of \<^verbatim>\<open>done()\<close> to a timer or another callback that it does
  not wait for (\<open>CallDoneLater\<close>, with the number of suspension points that pass
  before the call is made), so that the call can come after the promise of the piece
  has settled. A piece maps the state to the mutated state, what it does and the
  error it throws, if any.
\<close>

datatype call = CallNext "(done_fn \<Rightarrow> done_fn) option" | CallDone | CallDoneLater nat | Wait

record 's piece_run =
  run_state :: 's
  run_calls :: "call list"
  run_throws :: "js_error option"

type_synonym 's piece = "'s \<Rightarrow> 's piece_run"

text \<open>\<^verbatim>\<open>complete(b)\<close> may mutate the state and may throw.\<close>

type_synonym 's complete = "'s \<Rightarrow> 's \<times> js_error option"

datatype event =
  PieceRan nat
  | PieceCalledDone nat done_fn
  | PieceDeferredDone nat done_fn
  | LateDoneCalled done_fn
  | DoneLogic string
  | ResolveCalled
  | CompleteRan

datatype settlement = Resolved | Rejected js_error

text \<open>
  The variables of one call of \<^verbatim>\<open>execute\<close>: the state \<^verbatim>\<open>b\<close>, the variable
  \<^verbatim>\<open>done\<close> of \<^verbatim>\<open>reduceStack\<close>, the flag \<^verbatim>\<open>isPending\<close>, how the promise has settled
  (\<open>None\<close> while pending), the calls of done functions that were left for later,
  each with the number of suspension points that pass before it is made, and the
  trace of what ran.
\<close>

record 's execution =
  state :: 's
  current_done :: done_fn
  isPending :: bool
  settled :: "settlement option"
  deferred :: "(nat \<times> done_fn) list"
  trace :: "event list"

definition record_event :: "event \<Rightarrow> 's execution \<Rightarrow> 's execution" where
  "record_event e x = x\<lparr>trace := trace x @ [e]\<rparr>"

text \<open>
  \<^verbatim>\<open>resolve(b)\<close> settles the promise unless it is settled already. The callback
  chained with \<^verbatim>\<open>then\<close>, which clears \<^verbatim>\<open>isPending\<close>, is queued at that moment, and
  \<^verbatim>\<open>reduceStack\<close> reads the flag only when it resumes from an \<^verbatim>\<open>await\<close>. When a piece
  calls \<^verbatim>\<open>resolve\<close> before its promise settles, the callback is queued before the
  continuation of that \<^verbatim>\<open>await\<close> and has run when the flag is read. A call left for
  later is placed at the suspension point at which it is made and its callback has
  run before \<^verbatim>\<open>reduceStack\<close> resumes. So the flag is cleared here.
\<close>

definition resolve :: "'s execution \<Rightarrow> 's execution" where
  "resolve x =
     (let x1 = record_event ResolveCalled x
      in if settled x1 = None then x1\<lparr>settled := Some Resolved, isPending := False\<rparr> else x1)"

definition reject :: "js_error \<Rightarrow> 's execution \<Rightarrow> 's execution" where
  "reject err x = (if settled x = None then x\<lparr>settled := Some (Rejected err)\<rparr> else x)"

text \<open>
  Calling a done function. A deferring replacement runs its logic and leaves the
  call of the done it wraps for later.
\<close>

fun run_done :: "done_fn \<Rightarrow> 's execution \<Rightarrow> 's execution" where
  "run_done Resolve x = resolve x"
| "run_done (Wrap l d) x = run_done d (record_event (DoneLogic l) x)"
| "run_done (Drop l) x = record_event (DoneLogic l) x"
| "run_done (Defer n l d) x =
     (record_event (DoneLogic l) x)\<lparr>deferred := deferred x @ [(n, d)]\<rparr>"

text \<open>
  A suspension point: \<^verbatim>\<open>reduceStack\<close>, or the piece it waits for, is suspended in an
  \<^verbatim>\<open>await\<close>, and callbacks run meanwhile. The calls left for later whose number is
  \<open>0\<close> are made, in the order in which they were left; the others are one point
  nearer. What such a call leaves for later in its turn waits for a later point.
\<close>

definition late_call :: "done_fn \<Rightarrow> 's execution \<Rightarrow> 's execution" where
  "late_call d x = run_done d (record_event (LateDoneCalled d) x)"

definition suspend :: "'s execution \<Rightarrow> 's execution" where
  "suspend x =
     (let due = map snd (filter (\<lambda>p. fst p = 0) (deferred x));
          later = map (\<lambda>p. (fst p - 1, snd p)) (filter (\<lambda>p. 0 < fst p) (deferred x))
      in fold late_call due (x\<lparr>deferred := later\<rparr>))"

text \<open>
  One thing done by piece number \<open>i\<close>, which was given the done function \<open>d\<close>:
  \<^verbatim>\<open>next\<close> is \<^verbatim>\<open>(newDone) => cb(newDone || done)\<close> and \<^verbatim>\<open>cb\<close> assigns the variable
  of \<^verbatim>\<open>reduceStack\<close>.
\<close>

fun do_call :: "done_fn \<Rightarrow> nat \<Rightarrow> call \<Rightarrow> 's execution \<Rightarrow> 's execution" where
  "do_call d i (CallNext None) x = x\<lparr>current_done := d\<rparr>"
| "do_call d i (CallNext (Some newDone)) x = x\<lparr>current_done := newDone d\<rparr>"
| "do_call d i CallDone x = run_done d (record_event (PieceCalledDone i d) x)"
| "do_call d i (CallDoneLater n) x =
     (record_event (PieceDeferredDone i d) x)\<lparr>deferred := deferred x @ [(n, d)]\<rparr>"
| "do_call d i Wait x = suspend x"

text \<open>
  \<^verbatim>\<open>executePiece (done, piece, cb)\<close>: runs the piece and rethrows what it throws.
  \<^verbatim>\<open>reduceStack\<close> waits for it in an \<^verbatim>\<open>await\<close>, which is a suspension point whether the
  piece has thrown or not.
\<close>

definition executePiece ::
  "done_fn \<Rightarrow> nat \<Rightarrow> 's piece \<Rightarrow> 's execution \<Rightarrow> 's execution \<times> js_error option" where
  "executePiece d i piece x =
     (let r = piece (state x);
          x1 = record_event (PieceRan i) (x\<lparr>state := run_state r\<rparr>)
      in (suspend (fold (do_call d i) (run_calls r) x1), run_throws r))"

text \<open>
  The loop \<^verbatim>\<open>for (let piece of this.stack) await executePiece(done, piece, ...)\<close>:
  every piece is executed in turn with the current value of \<^verbatim>\<open>done\<close>; only an
  exception leaves the loop.
\<close>

fun run_stack :: "nat \<Rightarrow> 's piece list \<Rightarrow> 's execution \<Rightarrow> 's execution \<times> js_error option" where
  "run_stack i [] x = (x, None)"
| "run_stack i (piece # rest) x =
     (case executePiece (current_done x) i piece x of
        (x1, Some err) \<Rightarrow> (x1, Some err)
      | (x1, None) \<Rightarrow> run_stack (Suc i) rest x1)"

text \<open>
  \<^verbatim>\<open>reduceStack\<close>: after the loop, when \<^verbatim>\<open>isPending\<close> still holds,
  \<^verbatim>\<open>await Promise.resolve(complete(b))\<close> and \<^verbatim>\<open>await Promise.resolve(done())\<close>, each
  \<^verbatim>\<open>await\<close> being a suspension point; whatever is thrown is passed to \<^verbatim>\<open>reject\<close>.
\<close>

definition reduceStack :: "'s piece list \<Rightarrow> 's complete \<Rightarrow> 's execution \<Rightarrow> 's execution" where
  "reduceStack stack complete x0 =
     (case run_stack 0 stack (x0\<lparr>current_done := Resolve\<rparr>) of
        (x, Some err) \<Rightarrow> reject err x
      | (x, None) \<Rightarrow>
          if isPending x then
            (case complete (state x) of
               (s, Some err) \<Rightarrow> reject err (record_event CompleteRan (x\<lparr>state := s\<rparr>))
             | (s, None) \<Rightarrow>
                 suspend (run_done (current_done x)
                   (suspend (record_event CompleteRan (x\<lparr>state := s\<rparr>)))))
          else x)"

text \<open>
  \<^verbatim>\<open>execute (state, complete)\<close>, up to the end of \<^verbatim>\<open>reduceStack\<close>. The outer promise
  has resolved with \<^verbatim>\<open>b\<close>, the \<open>state\<close> of the result, when \<open>settled\<close> is
  \<open>Some Resolved\<close>, has rejected when it is \<open>Some (Rejected err)\<close>, and is pending when
  it is \<open>None\<close>; a settled promise stays as it is. The calls still left for later at
  that time are in \<open>deferred\<close>; with none left, a pending promise stays pending.
\<close>

definition execute :: "'s piece list \<Rightarrow> 's \<Rightarrow> 's complete \<Rightarrow> 's execution" where
  "execute stack b complete =
     reduceStack stack complete
       \<lparr>state = b, current_done = Resolve, isPending = True, settled = None, deferred = [],
        trace = []\<rparr>"

text \<open>Pieces and a completion function to run the stack on; the state is a list of marks.\<close>

definition piece_calls_done :: "string list piece" where
  "piece_calls_done b = \<lparr>run_state = b, run_calls = [CallDone], run_throws = None\<rparr>"

definition piece_marks :: "string \<Rightarrow> string list piece" where
  "piece_marks l b = \<lparr>run_state = b @ [l], run_calls = [CallNext None], run_throws = None\<rparr>"

definition piece_wraps_done :: "string \<Rightarrow> string list piece" where
  "piece_wraps_done l b =
     \<lparr>run_state = b, run_calls = [CallNext (Some (Wrap l))], run_throws = None\<rparr>"

definition piece_drops_done :: "string \<Rightarrow> string list piece" where
  "piece_drops_done l b =
     \<lparr>run_state = b, run_calls = [CallNext (Some (\<lambda>d. Drop l))], run_throws = None\<rparr>"

definition piece_defers_done :: "nat \<Rightarrow> string \<Rightarrow> string list piece" where
  "piece_defers_done n l b =
     \<lparr>run_state = b, run_calls = [CallNext (Some (Defer n l))], run_throws = None\<rparr>"

definition piece_calls_done_later :: "nat \<Rightarrow> string list piece" where
  "piece_calls_done_later n b =
     \<lparr>run_state = b, run_calls = [CallDoneLater n], run_throws = None\<rparr>"

definition piece_waits_then_calls_done :: "string list piece" where
  "piece_waits_then_calls_done b =
     \<lparr>run_state = b, run_calls = [Wait, CallDone], run_throws = None\<rparr>"

definition complete_marks :: "string list complete" where
  "complete_marks b = (b @ [''complete''], None)"

text \<open>
  The invariant of the loop over the stack: \<^verbatim>\<open>complete\<close> has not run, and either the
  promise is pending, \<^verbatim>\<open>isPending\<close> holds and no piece has called, before its promise
  settled, a done function that reaches \<^verbatim>\<open>resolve\<close> before it returns, or the promise
  is resolved and \<^verbatim>\<open>isPending\<close> is cleared.
\<close>

definition calm :: "'s execution \<Rightarrow> bool" where
  "calm x \<longleftrightarrow> CompleteRan \<notin> set (trace x) \<and>
     ((settled x = None \<and> isPending x \<and>
        (\<forall>i d. PieceCalledDone i d \<in> set (trace x) \<longrightarrow> \<not> reaches_resolve d))
      \<or> (settled x = Some Resolved \<and> \<not> isPending x))"

section \<open>Lifecycle: load, start, shutdown, pause and reset\<close>

text \<open>
  The status index is an object with six keys, each \<open>0\<close> or \<open>1\<close>, in the order of
  the literal.
\<close>

type_synonym status = "(string \<times> nat) list"

definition initial_status :: status where
  "initial_status =
     [(''waiting'', 1), (''loading'', 0), (''loaded'', 0), (''starting'', 0), (''started'', 0),
      (''shutdown'', 0)]"

text \<open>
  \<^verbatim>\<open>setStatus (set)\<close>: \<^verbatim>\<open>for (let key of Object.keys(status)) status[key] = (set === key) ? 1 : 0\<close>.
\<close>

definition setStatus :: "string \<Rightarrow> status \<Rightarrow> status" where
  "setStatus s st = map (\<lambda>(key, v). (key, if s = key then 1 else 0)) st"

text \<open>\<^verbatim>\<open>getStatus ()\<close>: the first key whose flag is \<open>1\<close>, else \<^verbatim>\<open>'broken'\<close>.\<close>

fun getStatus :: "status \<Rightarrow> string" where
  "getStatus [] = ''broken''"
| "getStatus ((key, v) # rest) = (if v = 1 then key else getStatus rest)"

text \<open>
  The five lifecycle functions are \<^verbatim>\<open>async\<close>: each runs until its next \<^verbatim>\<open>await\<close>,
  and other code may run before it resumes. A frame names a function together with
  the point where it resumes; \<^verbatim>\<open>shutdown\<close> carries its \<^verbatim>\<open>exit\<close> argument.
\<close>

datatype frame =
  Shutdown_memory nat
  | Shutdown_adapters nat
  | Shutdown_server nat
  | Shutdown_delay nat
  | Shutdown_finish nat
  | Reset_unload
  | Reset_delay
  | Reset_finish
  | Load_components
  | Load_finish
  | Load_caught
  | Start_server
  | Start_adapters
  | Start_memory
  | Start_delay
  | Start_finish
  | Pause_delay
  | Pause_finish

text \<open>
  A task is one call made from outside together with the calls it is awaiting: a stack
  of frames, innermost first. A task is ready to resume, waits for an event of the
  event bus, has returned, has thrown, or was cut off by \<^verbatim>\<open>process.exit\<close>.
\<close>

datatype task = Ready "frame list" | Waiting string "frame list" | Finished | Failed | Killed

datatype effect = Emitted string | Called nat string | LoggedError string

record lifecycle =
  status :: status
  tasks :: "task list"
  effects :: "effect list"
  exited :: "nat option"

definition initial_lifecycle :: lifecycle where
  "initial_lifecycle = \<lparr>status = initial_status, tasks = [], effects = [], exited = None\<rparr>"

text \<open>How a run of one frame up to its next \<^verbatim>\<open>await\<close> ends.\<close>

datatype outcome =
  Continue "frame list"
  | Await string "frame list"
  | Returned
  | Threw
  | Exits

definition set_status :: "string \<Rightarrow> lifecycle \<Rightarrow> lifecycle" where
  "set_status s w = w\<lparr>status := setStatus s (status w)\<rparr>"

definition effect :: "effect \<Rightarrow> lifecycle \<Rightarrow> lifecycle" where
  "effect e w = w\<lparr>effects := effects w @ [e]\<rparr>"

text \<open>
  \<^verbatim>\<open>bot.events.emit(name)\<close> runs the listeners: the one \<^verbatim>\<open>shutdown\<close> registered
  resolves the promise it awaits, so every task waiting for that event becomes ready.
\<close>

fun wake :: "string \<Rightarrow> task \<Rightarrow> task" where
  "wake e (Waiting e' fs) = (if e = e' then Ready fs else Waiting e' fs)"
| "wake e t = t"

definition emit :: "string \<Rightarrow> lifecycle \<Rightarrow> lifecycle" where
  "emit e w = (effect (Emitted e) w)\<lparr>tasks := map (wake e) (tasks w)\<rparr>"

text \<open>
  A call of a component outside this file (memory, adapters, server, middlewares,
  settings, the global path) is recorded with the task that made it. Whether the
  call succeeds is an input of the step that makes it (the flag \<open>ok\<close> below), and
  a failure is handled in that same step. The three \<^verbatim>\<open>load\<close> calls of \<^verbatim>\<open>load\<close> and
  the four calls in the \<^verbatim>\<open>try\<close> block of \<^verbatim>\<open>reset\<close> are recorded as one call each.
\<close>

definition call_component :: "nat \<Rightarrow> string \<Rightarrow> lifecycle \<Rightarrow> lifecycle" where
  "call_component tid name w = effect (Called tid name) w"

text \<open>
  \<^verbatim>\<open>await f()\<close> for a lifecycle function \<open>f\<close>: the callee runs up to its first
  \<^verbatim>\<open>await\<close> at once, and the caller resumes at \<open>resume\<close> after the callee returns.
\<close>

fun awaiting :: "frame \<Rightarrow> lifecycle \<times> outcome \<Rightarrow> lifecycle \<times> outcome" where
  "awaiting resume (w, Continue fs) = (w, Continue (fs @ [resume]))"
| "awaiting resume (w, Await e fs) = (w, Await e (fs @ [resume]))"
| "awaiting resume (w, Returned) = (w, Continue [resume])"
| "awaiting resume (w, Threw) = (w, Threw)"
| "awaiting resume (w, Exits) = (w, Exits)"

text \<open>
  \<^verbatim>\<open>shutdown (exit = 0)\<close> up to its first \<^verbatim>\<open>await\<close>: it returns when the status is
  \<^verbatim>\<open>shutdown\<close>, and waits for the event \<^verbatim>\<open>loaded\<close> or \<^verbatim>\<open>started\<close> when the status
  is \<^verbatim>\<open>loading\<close> or \<^verbatim>\<open>starting\<close>. In any other status the source calls
  \<^verbatim>\<open>memory.shutdown()\<close> at once; the model makes that call when the task first
  resumes, which only adds interleavings.
\<close>

definition shutdown_enter :: "nat \<Rightarrow> lifecycle \<Rightarrow> lifecycle \<times> outcome" where
  "shutdown_enter exit w =
     (let s = getStatus (status w)
      in if s = ''shutdown'' then (w, Returned)
         else if s = ''loading'' then (w, Await ''loaded'' [Shutdown_memory exit])
         else if s = ''starting'' then (w, Await ''started'' [Shutdown_memory exit])
         else (w, Continue [Shutdown_memory exit]))"

text \<open>\<^verbatim>\<open>reset\<close>: the \<^verbatim>\<open>try\<close> block and what follows it.\<close>

definition reset_unload :: "nat \<Rightarrow> bool \<Rightarrow> lifecycle \<Rightarrow> lifecycle \<times> outcome" where
  "reset_unload tid ok w =
     (let w1 = call_component tid ''unload'' w
      in if ok then (w1, Continue [Reset_finish])
         else awaiting Reset_delay
                (shutdown_enter 1 (effect (LoggedError ''[core] failed to reset'') w1)))"

definition reset_enter :: "nat \<Rightarrow> bool \<Rightarrow> lifecycle \<Rightarrow> lifecycle \<times> outcome" where
  "reset_enter tid ok w =
     (if getStatus (status w) \<noteq> ''shutdown'' then awaiting Reset_unload (shutdown_enter 0 w)
      else reset_unload tid ok w)"

text \<open>\<^verbatim>\<open>load\<close>: from \<^verbatim>\<open>setStatus('loading')\<close> to the \<^verbatim>\<open>await\<close> in or after the \<^verbatim>\<open>try\<close> block.\<close>

definition load_components :: "nat \<Rightarrow> bool \<Rightarrow> lifecycle \<Rightarrow> lifecycle \<times> outcome" where
  "load_components tid ok w =
     (let w1 = call_component tid ''load'' (set_status ''loading'' w)
      in if ok then (w1, Continue [Load_finish])
         else awaiting Load_caught
                (shutdown_enter 1 (effect (LoggedError ''[core] failed to load'') w1)))"

definition load_enter :: "nat \<Rightarrow> bool \<Rightarrow> lifecycle \<Rightarrow> lifecycle \<times> outcome" where
  "load_enter tid ok w =
     (if getStatus (status w) \<noteq> ''waiting'' then awaiting Load_components (reset_enter tid ok w)
      else load_components tid ok w)"

text \<open>
  \<^verbatim>\<open>start\<close>: a failure inside the \<^verbatim>\<open>try\<close> block is logged and answered with
  \<^verbatim>\<open>shutdown(1)\<close>, after which \<^verbatim>\<open>start\<close> goes on behind the \<^verbatim>\<open>catch\<close>.
\<close>

definition start_failed :: "lifecycle \<Rightarrow> lifecycle \<times> outcome" where
  "start_failed w =
     awaiting Start_delay (shutdown_enter 1 (effect (LoggedError ''[core] failed to start'') w))"

definition start_server :: "nat \<Rightarrow> bool \<Rightarrow> lifecycle \<Rightarrow> lifecycle \<times> outcome" where
  "start_server tid ok w =
     (let w1 = call_component tid ''server.start'' (set_status ''starting'' w)
      in if ok then (w1, Continue [Start_adapters]) else start_failed w1)"

definition start_enter :: "nat \<Rightarrow> bool \<Rightarrow> lifecycle \<Rightarrow> lifecycle \<times> outcome" where
  "start_enter tid ok w =
     (if getStatus (status w) \<noteq> ''loaded'' then awaiting Start_server (load_enter tid ok w)
      else start_server tid ok w)"

definition pause_enter :: "lifecycle \<Rightarrow> lifecycle \<times> outcome" where
  "pause_enter w = awaiting Pause_delay (shutdown_enter 0 w)"

text \<open>
  Resuming a frame: the code from the \<^verbatim>\<open>await\<close> it was suspended in to the next one.
  A rejected \<^verbatim>\<open>await\<close> outside a \<^verbatim>\<open>try\<close> block makes the function throw.
\<close>

fun resume_frame :: "nat \<Rightarrow> frame \<Rightarrow> bool \<Rightarrow> lifecycle \<Rightarrow> lifecycle \<times> outcome" where
  "resume_frame tid (Shutdown_memory exit) ok w =
     (call_component tid ''memory.shutdown'' w,
      if ok then Continue [Shutdown_adapters exit] else Threw)"
| "resume_frame tid (Shutdown_adapters exit) ok w =
     (call_component tid ''adapters.shutdown'' w,
      if ok then Continue [Shutdown_server exit] else Threw)"
| "resume_frame tid (Shutdown_server exit) ok w =
     (call_component tid ''server.shutdown'' w,
      if ok then Continue [Shutdown_delay exit] else Threw)"
| "resume_frame tid (Shutdown_delay exit) ok w = (w, Continue [Shutdown_finish exit])"
| "resume_frame tid (Shutdown_finish exit) ok w =
     (let w1 = emit ''shutdown'' (set_status ''shutdown'' w)
      in if exit \<noteq> 0 then (w1\<lparr>exited := Some exit\<rparr>, Exits) else (w1, Returned))"
| "resume_frame tid Reset_unload ok w = reset_unload tid ok w"
| "resume_frame tid Reset_delay ok w = (w, Continue [Reset_finish])"
| "resume_frame tid Reset_finish ok w = (emit ''waiting'' (set_status ''waiting'' w), Returned)"
| "resume_frame tid Load_components ok w = load_components tid ok w"
| "resume_frame tid Load_finish ok w = (emit ''loaded'' (set_status ''loaded'' w), Returned)"
| "resume_frame tid Load_caught ok w = (w, Returned)"
| "resume_frame tid Start_server ok w = start_server tid ok w"
| "resume_frame tid Start_adapters ok w =
     (let w1 = call_component tid ''adapters.start'' w
      in if ok then (w1, Continue [Start_memory]) else start_failed w1)"
| "resume_frame tid Start_memory ok w =
     (let w1 = call_component tid ''memory.start'' w
      in if ok then (w1, Continue [Start_delay]) else start_failed w1)"
| "resume_frame tid Start_delay ok w = (w, Continue [Start_finish])"
| "resume_frame tid Start_finish ok w = (emit ''started'' (set_status ''started'' w), Returned)"
| "resume_frame tid Pause_delay ok w = (w, Continue [Pause_finish])"
| "resume_frame tid Pause_finish ok w = (emit ''paused'' (set_status ''loaded'' w), Returned)"

text \<open>The task after its innermost frame ran, \<open>rest\<close> being the frames awaiting it.\<close>

fun task_after :: "outcome \<Rightarrow> frame list \<Rightarrow> task" where
  "task_after (Continue fs) rest = Ready (fs @ rest)"
| "task_after (Await e fs) rest = Waiting e (fs @ rest)"
| "task_after Returned rest = (if rest = [] then Finished else Ready rest)"
| "task_after Threw rest = Failed"
| "task_after Exits rest = Killed"

definition settle_task :: "nat \<Rightarrow> frame list \<Rightarrow> lifecycle \<times> outcome \<Rightarrow> lifecycle" where
  "settle_task tid rest r = (fst r)\<lparr>tasks := (tasks (fst r))[tid := task_after (snd r) rest]\<rparr>"

text \<open>
  What can happen: a call of a lifecycle function from outside, which runs to its
  first \<^verbatim>\<open>await\<close>; a ready task resuming; an event emitted by other code (memory
  emits \<^verbatim>\<open>loaded\<close> on every \<^verbatim>\<open>set\<close>). Nothing runs after \<^verbatim>\<open>process.exit\<close>.
\<close>

datatype lifecycle_call = CallLoad | CallStart | CallShutdown nat | CallPause | CallReset

datatype action = Invoke lifecycle_call bool | Run nat bool | Emit string

fun enter :: "lifecycle_call \<Rightarrow> nat \<Rightarrow> bool \<Rightarrow> lifecycle \<Rightarrow> lifecycle \<times> outcome" where
  "enter CallLoad tid ok w = load_enter tid ok w"
| "enter CallStart tid ok w = start_enter tid ok w"
| "enter (CallShutdown exit) tid ok w = shutdown_enter exit w"
| "enter CallPause tid ok w = pause_enter w"
| "enter CallReset tid ok w = reset_enter tid ok w"

fun perform :: "action \<Rightarrow> lifecycle \<Rightarrow> lifecycle" where
  "perform (Invoke c ok) w =
     settle_task (length (tasks w)) [] (enter c (length (tasks w)) ok (w\<lparr>tasks := tasks w @ [Ready []]\<rparr>))"
| "perform (Run tid ok) w =
     (if tid < length (tasks w) then
        (case tasks w ! tid of
           Ready (f # rest) \<Rightarrow> settle_task tid rest (resume_frame tid f ok w)
         | _ \<Rightarrow> w)
      else w)"
| "perform (Emit e) w = emit e w"

definition step :: "action \<Rightarrow> lifecycle \<Rightarrow> lifecycle" where
  "step a w = (if exited w = None then perform a w else w)"

definition run :: "action list \<Rightarrow> lifecycle \<Rightarrow> lifecycle" where
  "run acts w = fold step acts w"

text \<open>The names \<^verbatim>\<open>getStatus\<close> is meant to return.\<close>

definition status_names :: "string list" where
  "status_names = [''waiting'', ''loading'', ''loaded'', ''starting'', ''started'', ''shutdown'']"

text \<open>The number of flags set in the status index.\<close>

definition flags_set :: "status \<Rightarrow> nat" where
  "flags_set st = length (filter (\<lambda>(key, v). v = 1) st)"

text \<open>
  In a list of effects, every component call made by task \<open>tid\<close> comes after an
  emission of the event \<^verbatim>\<open>loaded\<close>; \<open>seen\<close> says whether one has come already.
\<close>

fun calls_after_loaded :: "nat \<Rightarrow> bool \<Rightarrow> effect list \<Rightarrow> bool" where
  "calls_after_loaded tid seen [] = True"
| "calls_after_loaded tid seen (Emitted e # es) = calls_after_loaded tid (seen \<or> e = ''loaded'') es"
| "calls_after_loaded tid seen (Called t name # es) =
     ((t \<noteq> tid \<or> seen) \<and> calls_after_loaded tid seen es)"
| "calls_after_loaded tid seen (LoggedError m # es) = calls_after_loaded tid seen es"





text \<open>
  The statuses \<^verbatim>\<open>setStatus\<close> can produce from the initial index with one of the six
  names.
\<close>

definition known_status :: "status \<Rightarrow> bool" where
  "known_status st \<longleftrightarrow> st \<in> set (map (\<lambda>s. setStatus s initial_status) status_names)"

text \<open>
  The footprint of the code one task runs between two \<^verbatim>\<open>await\<close>s: it appends effects,
  its component calls carry its own number, and the other tasks change only by
  being woken by the events it emits.
\<close>

fun woken :: "string list \<Rightarrow> task \<Rightarrow> task" where
  "woken names (Waiting e fs) = (if e \<in> set names then Ready fs else Waiting e fs)"
| "woken names t = t"

fun emitted_names :: "effect list \<Rightarrow> string list" where
  "emitted_names [] = []"
| "emitted_names (Emitted e # es) = e # emitted_names es"
| "emitted_names (x # es) = emitted_names es"

definition footprint :: "nat \<Rightarrow> lifecycle \<Rightarrow> lifecycle \<Rightarrow> bool" where
  "footprint t w w' \<longleftrightarrow>
     (\<exists>es. effects w' = effects w @ es \<and> (\<forall>t' n. Called t' n \<in> set es \<longrightarrow> t' = t) \<and>
           tasks w' = map (woken (emitted_names es)) (tasks w))"





subsection \<open>Facts about the loop of forced\<close>

lemma get_set_collection [simp]: "get_collection s (set_collection s c p) = c"
  by (cases s) simp_all

lemma impl_of_delete_filter:
  "DAList.impl_of (DAList.delete k c) = filter (\<lambda>e. fst e \<noteq> k) (DAList.impl_of c)"
  by (simp add: DAList.delete.rep_eq AList.delete_eq split_def eq_commute [of k])

lemma forced_loop_filter:
  "DAList.impl_of (forced_loop ids c) =
     filter (\<lambda>e. fst e \<in> set ids \<longrightarrow> force (snd e)) (DAList.impl_of c)"
proof (induction ids arbitrary: c)
  case Nil
  show ?case by simp
next
  case (Cons i ids)
  have dist: "distinct (map fst (DAList.impl_of c))" by simp
  show ?case
  proof (cases "DAList.lookup c i")
    case None
    then have "map_of (DAList.impl_of c) i = None"
      by (simp add: DAList.lookup.rep_eq)
    then have nokey: "\<And>e. e \<in> set (DAList.impl_of c) \<Longrightarrow> fst e \<noteq> i"
      by (meson image_eqI map_of_eq_None_iff)
    have "filter (\<lambda>e. fst e \<in> set ids \<longrightarrow> force (snd e)) (DAList.impl_of c) =
          filter (\<lambda>e. fst e \<in> set (i # ids) \<longrightarrow> force (snd e)) (DAList.impl_of c)"
      by (rule filter_cong [OF refl]) (simp add: nokey)
    then show ?thesis using None Cons.IH [of c] by simp
  next
    case (Some b)
    then have "map_of (DAList.impl_of c) i = Some b"
      by (simp add: DAList.lookup.rep_eq)
    then have mem: "(i, b) \<in> set (DAList.impl_of c)"
      by (rule map_of_SomeD)
    have uniq: "snd e = b" if "e \<in> set (DAList.impl_of c)" and "fst e = i" for e
    proof -
      from that have "(i, snd e) \<in> set (DAList.impl_of c)" by (metis prod.collapse)
      with dist mem show ?thesis by (metis eq_key_imp_eq_value)
    qed
    show ?thesis
    proof (cases "force b")
      case True
      have "filter (\<lambda>e. fst e \<in> set ids \<longrightarrow> force (snd e)) (DAList.impl_of c) =
            filter (\<lambda>e. fst e \<in> set (i # ids) \<longrightarrow> force (snd e)) (DAList.impl_of c)"
        by (rule filter_cong [OF refl]) (use True uniq in auto)
      then show ?thesis using Some True Cons.IH [of c] by simp
    next
      case False
      have "filter (\<lambda>e. fst e \<noteq> i \<and> (fst e \<in> set ids \<longrightarrow> force (snd e))) (DAList.impl_of c) =
            filter (\<lambda>e. fst e \<in> set (i # ids) \<longrightarrow> force (snd e)) (DAList.impl_of c)"
        by (rule filter_cong [OF refl]) (use False uniq in auto)
      then show ?thesis using Some False Cons.IH [of "DAList.delete i c"]
        by (simp add: impl_of_delete_filter conj_commute)
    qed
  qed
qed

lemma forced_loop_all_keys:
  "DAList.impl_of (forced_loop (object_keys c) c) = filter (\<lambda>e. force (snd e)) (DAList.impl_of c)"
  unfolding forced_loop_filter object_keys_def
  by (rule filter_cong [OF refl]) simp

subsection \<open>Facts about save and load\<close>

lemma collections_setSaveInterval [simp]:
  "collections (memory (setSaveInterval n w)) = collections (memory w)"
  by (simp add: setSaveInterval_def Let_def split: option.split)

lemma storage_setSaveInterval [simp]: "storage (setSaveInterval n w) = storage w"
  by (simp add: setSaveInterval_def Let_def split: option.split)

lemma storage_state_setSaveInterval [simp]:
  "storage_state (setSaveInterval n w) = storage_state w"
  by (simp add: setSaveInterval_def Let_def split: option.split)

lemma memory_clearSaveInterval [simp]: "memory (clearSaveInterval w) = memory w"
  by (simp add: clearSaveInterval_def split: option.split)

lemma storage_state_clearSaveInterval [simp]:
  "storage_state (clearSaveInterval w) = storage_state w"
  by (simp add: clearSaveInterval_def split: option.split)

lemma storage_clearSaveInterval [simp]: "storage (clearSaveInterval w) = storage w"
  by (simp add: clearSaveInterval_def split: option.split)

lemma collections_merge_same:
  "object_collections l = collections m \<Longrightarrow> collections (merge_loaded l m) = collections m"
proof -
  assume same: "object_collections l = collections m"
  have "(case collections m key of None \<Rightarrow> collections m key
         | Some lc \<Rightarrow> Some ((case collections m key of None \<Rightarrow> Map.empty | Some c \<Rightarrow> c) ++ lc))
        = collections m key" for key
    by (cases "collections m key") (simp_all add: map_add_def fun_eq_iff split: option.split)
  then show ?thesis
    by (simp add: merge_loaded_def same Let_def split: option.split prod.split)
qed

subsection \<open>Facts about the execution of a stack\<close>

lemma calm_deferred: "calm (x\<lparr>deferred := q\<rparr>) = calm x"
  by (simp add: calm_def)

lemma calm_resolve: "calm x \<Longrightarrow> calm (resolve x) \<and> settled (resolve x) = Some Resolved"
  by (auto simp: calm_def resolve_def record_event_def Let_def)

lemma calm_record_DoneLogic: "calm x \<Longrightarrow> calm (record_event (DoneLogic l) x)"
  by (auto simp: calm_def record_event_def)

lemma calm_record_LateDoneCalled: "calm x \<Longrightarrow> calm (record_event (LateDoneCalled d) x)"
  by (auto simp: calm_def record_event_def)

lemma calm_record_PieceDeferredDone: "calm x \<Longrightarrow> calm (record_event (PieceDeferredDone i d) x)"
  by (auto simp: calm_def record_event_def)

lemma calm_run_done:
  "calm x \<Longrightarrow> calm (run_done d x) \<and> (reaches_resolve d \<longrightarrow> settled (run_done d x) = Some Resolved)"
  by (induction d arbitrary: x) (simp_all add: calm_resolve calm_record_DoneLogic calm_deferred)

lemma calm_late_call: "calm x \<Longrightarrow> calm (late_call d x)"
  by (simp add: late_call_def calm_run_done calm_record_LateDoneCalled)

lemma calm_late_calls: "calm x \<Longrightarrow> calm (fold late_call ds x)"
  by (induction ds arbitrary: x) (simp_all add: calm_late_call)

lemma calm_suspend: "calm x \<Longrightarrow> calm (suspend x)"
  by (simp add: suspend_def Let_def calm_late_calls calm_deferred)

lemma calm_called_done:
  assumes "calm x"
  shows "calm (run_done d (record_event (PieceCalledDone i d) x))"
proof (cases "reaches_resolve d")
  case False
  then have "calm (record_event (PieceCalledDone i d) x)"
    using assms by (auto simp: calm_def record_event_def)
  then show ?thesis by (simp add: calm_run_done)
next
  case True
  have less: "CompleteRan \<notin> set (trace y) \<Longrightarrow> CompleteRan \<notin> set (trace (run_done d y))" for y :: "'a execution"
    by (induction d arbitrary: y) (auto simp: resolve_def record_event_def Let_def)
  have res: "reaches_resolve d \<Longrightarrow> settled y = None \<or> (settled y = Some Resolved \<and> \<not> isPending y) \<Longrightarrow>
     settled (run_done d y) = Some Resolved \<and> \<not> isPending (run_done d y)" for y :: "'a execution"
    by (induction d arbitrary: y) (auto simp: resolve_def record_event_def Let_def)
  let ?y = "record_event (PieceCalledDone i d) x"
  have "CompleteRan \<notin> set (trace ?y)"
    using assms by (auto simp: calm_def record_event_def)
  moreover have "settled ?y = None \<or> (settled ?y = Some Resolved \<and> \<not> isPending ?y)"
    using assms by (auto simp: calm_def record_event_def)
  ultimately show ?thesis
    using less [of ?y] res [OF True, of ?y] by (simp add: calm_def)
qed

lemma calm_do_call: "calm x \<Longrightarrow> calm (do_call d i c x)"
proof (cases c)
  case (CallNext nd)
  assume "calm x"
  then show ?thesis using CallNext by (cases nd) (auto simp: calm_def)
next
  case CallDone
  assume "calm x"
  then show ?thesis using CallDone by (simp add: calm_called_done)
next
  case (CallDoneLater n)
  assume "calm x"
  then show ?thesis using CallDoneLater
    by (simp add: calm_deferred calm_record_PieceDeferredDone)
next
  case Wait
  assume "calm x"
  then show ?thesis using Wait by (simp add: calm_suspend)
qed

lemma calm_fold_calls: "calm x \<Longrightarrow> calm (fold (do_call d i) cs x)"
  by (induction cs arbitrary: x) (simp_all add: calm_do_call)

lemma calm_executePiece: "calm x \<Longrightarrow> calm (fst (executePiece d i p x))"
proof -
  assume "calm x"
  then have "calm (record_event (PieceRan i) (x\<lparr>state := run_state (p (state x))\<rparr>))"
    by (auto simp: calm_def record_event_def)
  then show ?thesis
    by (simp add: executePiece_def Let_def calm_fold_calls calm_suspend)
qed

lemma calm_run_stack: "calm x \<Longrightarrow> calm (fst (run_stack i ps x))"
proof (induction ps arbitrary: i x)
  case Nil
  then show ?case by simp
next
  case (Cons p ps)
  from Cons.prems have c: "calm (fst (executePiece (current_done x) i p x))"
    by (rule calm_executePiece)
  show ?case
  proof (cases "executePiece (current_done x) i p x")
    case (Pair x1 r)
    with c have "calm x1" by simp
    then show ?thesis using Pair Cons.IH [of x1 "Suc i"]
      by (cases r) simp_all
  qed
qed

lemma run_done_adds_no_piece_call:
  "PieceCalledDone i d \<in> set (trace (run_done d' x)) \<Longrightarrow> PieceCalledDone i d \<in> set (trace x)"
proof (induction d' arbitrary: x)
  case Resolve
  then show ?case by (auto simp: resolve_def record_event_def Let_def split: if_splits)
next
  case (Wrap l d')
  from Wrap.prems have "PieceCalledDone i d \<in> set (trace (record_event (DoneLogic l) x))"
    by (simp add: Wrap.IH)
  then show ?case by (simp add: record_event_def)
next
  case (Drop l)
  then show ?case by (simp add: record_event_def)
next
  case (Defer n l d')
  then show ?case by (simp add: record_event_def)
qed

lemma late_calls_add_no_piece_call:
  "PieceCalledDone i d \<in> set (trace (fold late_call ds x)) \<Longrightarrow> PieceCalledDone i d \<in> set (trace x)"
proof (induction ds arbitrary: x)
  case Nil
  then show ?case by simp
next
  case (Cons d' ds)
  from Cons.prems have "PieceCalledDone i d \<in> set (trace (late_call d' x))"
    by (simp add: Cons.IH)
  then have "PieceCalledDone i d \<in> set (trace (record_event (LateDoneCalled d') x))"
    unfolding late_call_def by (rule run_done_adds_no_piece_call)
  then show ?case by (simp add: record_event_def)
qed

lemma suspend_adds_no_piece_call:
  "PieceCalledDone i d \<in> set (trace (suspend x)) \<Longrightarrow> PieceCalledDone i d \<in> set (trace x)"
proof -
  assume "PieceCalledDone i d \<in> set (trace (suspend x))"
  then have "PieceCalledDone i d \<in> set (trace (x\<lparr>deferred :=
      map (\<lambda>p. (fst p - 1, snd p)) (filter (\<lambda>p. 0 < fst p) (deferred x))\<rparr>))"
    unfolding suspend_def Let_def by (rule late_calls_add_no_piece_call)
  then show ?thesis by simp
qed

text \<open>
  A done function that is called too late does not keep \<^verbatim>\<open>complete\<close> from running. In
  the first run a replacement calls the done it replaced, but only after it has
  returned, two suspension points later; in the second a piece leaves its call of
  \<^verbatim>\<open>done()\<close> to a timer. In both \<^verbatim>\<open>complete\<close> runs and the promise resolves afterwards.
  In the third run the piece waits first and then calls \<^verbatim>\<open>done()\<close> itself, and
  \<^verbatim>\<open>complete\<close> does not run.
\<close>

lemma late_done_lets_complete_run:
  "trace (execute [piece_defers_done 1 ''cleanup'', piece_calls_done] [] complete_marks) =
     [PieceRan 0, PieceRan 1, PieceCalledDone 1 (Defer 1 ''cleanup'' Resolve),
      DoneLogic ''cleanup'', CompleteRan, LateDoneCalled Resolve, ResolveCalled,
      DoneLogic ''cleanup'']"
  "settled (execute [piece_defers_done 1 ''cleanup'', piece_calls_done] [] complete_marks) =
     Some Resolved"
  "trace (execute [piece_calls_done_later 1] [] complete_marks) =
     [PieceRan 0, PieceDeferredDone 0 Resolve, CompleteRan, LateDoneCalled Resolve,
      ResolveCalled, ResolveCalled]"
  "settled (execute [piece_calls_done_later 1] [] complete_marks) = Some Resolved"
  "trace (execute [piece_waits_then_calls_done] [] complete_marks) =
     [PieceRan 0, PieceCalledDone 0 Resolve, ResolveCalled]"
  by (simp_all add: execute_def reduceStack_def executePiece_def suspend_def late_call_def
      resolve_def reject_def record_event_def Let_def piece_defers_done_def
      piece_calls_done_def piece_calls_done_later_def piece_waits_then_calls_done_def
      complete_marks_def)

subsection \<open>Facts about the lifecycle\<close>

lemma known_status_initial: "known_status initial_status"
  by (simp add: known_status_def status_names_def setStatus_def initial_status_def)

lemma known_status_setStatus:
  "known_status st \<Longrightarrow> s \<in> set status_names \<Longrightarrow> known_status (setStatus s st)"
  by (auto simp: known_status_def status_names_def setStatus_def initial_status_def)

lemma known_status_flags:
  "known_status st \<Longrightarrow> flags_set st = 1 \<and> getStatus st \<in> set status_names \<and> getStatus st \<noteq> ''broken''"
  by (auto simp: known_status_def status_names_def setStatus_def initial_status_def flags_set_def)


lemma status_effect [simp]: "status (effect e w) = status w"
  by (simp add: effect_def)

lemma status_emit [simp]: "status (emit e w) = status w"
  by (simp add: emit_def)

lemma status_call_component [simp]: "status (call_component t n w) = status w"
  by (simp add: call_component_def)

lemma status_set_status [simp]: "status (set_status s w) = setStatus s (status w)"
  by (simp add: set_status_def)

lemma fst_awaiting [simp]: "fst (awaiting f r) = fst r"
  by (cases r, cases "snd r") simp_all

lemma status_settle_task [simp]: "status (settle_task t rest r) = status (fst r)"
  by (simp add: settle_task_def)

lemma names [simp]:
  "''waiting'' \<in> set status_names" "''loading'' \<in> set status_names"
  "''loaded'' \<in> set status_names" "''starting'' \<in> set status_names"
  "''started'' \<in> set status_names" "''shutdown'' \<in> set status_names"
  by (simp_all add: status_names_def)

lemma known_shutdown_enter:
  "known_status (status w) \<Longrightarrow> known_status (status (fst (shutdown_enter e w)))"
  by (simp add: shutdown_enter_def Let_def)

lemma known_reset_unload:
  "known_status (status w) \<Longrightarrow> known_status (status (fst (reset_unload t ok w)))"
  by (simp add: reset_unload_def Let_def known_shutdown_enter)

lemma known_reset_enter:
  "known_status (status w) \<Longrightarrow> known_status (status (fst (reset_enter t ok w)))"
  by (simp add: reset_enter_def known_shutdown_enter known_reset_unload)

lemma known_load_components:
  "known_status (status w) \<Longrightarrow> known_status (status (fst (load_components t ok w)))"
  by (simp add: load_components_def Let_def known_shutdown_enter known_status_setStatus)

lemma known_load_enter:
  "known_status (status w) \<Longrightarrow> known_status (status (fst (load_enter t ok w)))"
  by (simp add: load_enter_def known_reset_enter known_load_components)

lemma known_start_failed:
  "known_status (status w) \<Longrightarrow> known_status (status (fst (start_failed w)))"
  by (simp add: start_failed_def known_shutdown_enter)

lemma known_start_server:
  "known_status (status w) \<Longrightarrow> known_status (status (fst (start_server t ok w)))"
  by (simp add: start_server_def Let_def known_start_failed known_status_setStatus)

lemma known_start_enter:
  "known_status (status w) \<Longrightarrow> known_status (status (fst (start_enter t ok w)))"
  by (simp add: start_enter_def known_load_enter known_start_server)

lemma known_pause_enter:
  "known_status (status w) \<Longrightarrow> known_status (status (fst (pause_enter w)))"
  by (simp add: pause_enter_def known_shutdown_enter)

lemma known_enter:
  "known_status (status w) \<Longrightarrow> known_status (status (fst (enter c t ok w)))"
  by (cases c)
    (simp_all add: known_load_enter known_start_enter known_shutdown_enter known_pause_enter
      known_reset_enter)

lemma known_resume_frame:
  "known_status (status w) \<Longrightarrow> known_status (status (fst (resume_frame t f ok w)))"
  by (cases f)
    (simp_all add: Let_def known_status_setStatus known_reset_unload known_load_components
      known_start_server known_start_failed)

lemma known_perform:
  assumes "known_status (status w)"
  shows "known_status (status (perform a w))"
proof (cases a)
  case (Invoke c ok)
  have "known_status (status (w\<lparr>tasks := tasks w @ [Ready []]\<rparr>))"
    using assms by simp
  then show ?thesis using Invoke by (simp add: known_enter)
next
  case (Run t ok)
  show ?thesis
  proof (cases "t < length (tasks w)")
    case False
    then show ?thesis using Run assms by simp
  next
    case True
    then show ?thesis using Run assms
      by (simp add: known_resume_frame split: task.split list.split)
  qed
next
  case (Emit e)
  then show ?thesis using assms by simp
qed

lemma known_step: "known_status (status w) \<Longrightarrow> known_status (status (step a w))"
  by (simp add: step_def known_perform)

lemma known_run: "known_status (status w) \<Longrightarrow> known_status (status (run acts w))"
  unfolding run_def by (induction acts arbitrary: w) (simp_all add: known_step)

lemma emitted_names_append [simp]:
  "emitted_names (es @ es') = emitted_names es @ emitted_names es'"
  by (induction es rule: emitted_names.induct) simp_all

lemma woken_Nil [simp]: "woken [] t = t"
  by (cases t) simp_all

lemma woken_woken [simp]: "woken b (woken a t) = woken (a @ b) t"
  by (cases t) simp_all

lemma woken_single [simp]: "woken [e] t = wake e t"
  by (cases t) simp_all

lemma footprint_refl [simp]: "footprint t w w"
  unfolding footprint_def by (rule exI [of _ "[]"]) (simp add: map_idI)






















lemma calls_after_loaded_seen: "calls_after_loaded tid True es"
proof (induction es)
  case Nil
  show ?case by simp
next
  case (Cons a es)
  then show ?case by (cases a) simp_all
qed











section \<open>Theorems\<close>

text \<open>
  C8. For every path, after \<^verbatim>\<open>reset()\<close> the listen, understand and act maps are
  empty, and the serve map holds exactly the branches it held before the call.
\<close>

theorem reset_empties_all_but_serve:
  "listen (reset p) = DAList.empty \<and> understand (reset p) = DAList.empty \<and>
   act (reset p) = DAList.empty \<and> serve (reset p) = serve p"
  by (simp add: reset_def)

text \<open>
  C4. For every path and every stage, after \<^verbatim>\<open>forced(s)\<close> every branch remaining
  in the collection of that stage has \<^verbatim>\<open>force = true\<close>, and the value returned is the
  number of branches remaining in it.
\<close>

theorem forced_keeps_forced_and_counts:
  "list_all force (branches (get_collection s (snd (forced s p)))) \<and>
   fst (forced s p) = length (branches (get_collection s (snd (forced s p))))"
  by (simp add: forced_def Let_def branches_def forced_loop_all_keys list_all_iff
      object_keys_def [of "forced_loop xs c" for xs c])

text \<open>A path with one forced and one unforced branch under \<^verbatim>\<open>listen\<close>.\<close>

theorem forced_keeps_forced_and_counts_witness:
  "list_all force (branches (get_collection Listen (snd (forced Listen
      \<lparr>scope = ''global'',
       listen = DAList.update ''b'' \<lparr>branch_id = ''b'', force = False\<rparr>
                 (DAList.update ''a'' \<lparr>branch_id = ''a'', force = True\<rparr> DAList.empty),
       understand = DAList.empty, serve = DAList.empty, act = DAList.empty\<rparr>)))) \<and>
   fst (forced Listen
      \<lparr>scope = ''global'',
       listen = DAList.update ''b'' \<lparr>branch_id = ''b'', force = False\<rparr>
                 (DAList.update ''a'' \<lparr>branch_id = ''a'', force = True\<rparr> DAList.empty),
       understand = DAList.empty, serve = DAList.empty, act = DAList.empty\<rparr>) = 1"
  using forced_keeps_forced_and_counts [of Listen
      "\<lparr>scope = ''global'',
       listen = DAList.update ''b'' \<lparr>branch_id = ''b'', force = False\<rparr>
                 (DAList.update ''a'' \<lparr>branch_id = ''a'', force = True\<rparr> DAList.empty),
       understand = DAList.empty, serve = DAList.empty, act = DAList.empty\<rparr>"]
  by (simp add: forced_def object_keys_def branches_def Let_def DAList.update.rep_eq
      DAList.empty.rep_eq DAList.lookup.rep_eq DAList.delete.rep_eq)

text \<open>
  C9 as stated: for every string, the value stored by the name setter (or the
  alias setter) contains only lower case letters, digits, underscore and hyphen.
  The expression of \<^verbatim>\<open>safeName\<close> carries the flag \<^verbatim>\<open>i\<close>, so upper case letters
  are kept: the name \<^verbatim>\<open>Bot\<close> is stored unchanged.
\<close>

theorem set_name_keeps_upper_case:
  "get ''name'' (set_name ''Bot'' empty_settings) = Some (Str ''Bot'') \<and>
   \<not> list_all lower_name_char ''Bot''"
  by (simp add: get_def set_name_def set_setting_def set_key_def safeName_def hyphenate_def
      empty_settings_def matches_ignore_case_def name_class_def lower_name_char_def
      is_lower_def is_upper_def is_digit_def to_lower_def to_upper_def Let_def)

text \<open>
  C9 amended: for every string, the name setter and the alias setter store
  \<^verbatim>\<open>safeName\<close> of it, which contains only ASCII letters of either case, digits,
  underscore and hyphen.
\<close>

theorem setters_store_safe_name:
  "get ''name'' (set_name s st) = Some (Str (safeName s)) \<and>
   get ''alias'' (set_alias s st) = Some (Str (safeName s)) \<and>
   list_all any_case_name_char (safeName s)"
proof -
  have h: "hyphenate ''name'' = ''name''" "hyphenate ''alias'' = ''alias''"
    by (simp_all add: hyphenate_def is_upper_def)
  have c: "camelCase ''name'' = ''name''" "camelCase ''alias'' = ''alias''"
    by simp_all
  have "any_case_name_char x" if "matches_ignore_case name_class x" for x
    using that
    by (auto simp: matches_ignore_case_def name_class_def any_case_name_char_def
        to_lower_def to_upper_def is_lower_def is_upper_def is_digit_def
        split: if_splits)
  then have "list_all any_case_name_char (safeName s)"
    by (simp add: safeName_def list_all_iff)
  then show ?thesis
    by (simp add: get_def set_name_def set_alias_def set_setting_def set_key_def h c Let_def)
qed

text \<open>
  C7 as stated: a call of \<^verbatim>\<open>memory.save()\<close> or \<^verbatim>\<open>memory.load()\<close> made when no
  storage adapter is registered fails with StorageUnavailable. Both methods test
  the storage slot first and return; neither raises an error.
\<close>

theorem save_without_storage_does_not_fail:
  "save bot_without_storage = Inr bot_without_storage \<and>
   save bot_without_storage \<noteq> Inl (Error ''StorageUnavailable'') \<and>
   load bot_without_storage \<noteq> Inl (Error ''StorageUnavailable'')"
  by (simp add: save_def load_def bot_without_storage_def)

text \<open>
  C7 amended: when no storage adapter is registered, \<^verbatim>\<open>memory.save()\<close> returns
  without error and without any effect, and \<^verbatim>\<open>memory.load()\<close> returns without
  error, its only effect being the logged warning.
\<close>

theorem save_load_without_storage_return:
  "storage w = None \<Longrightarrow>
     save w = Inr w \<and> load w = Inr (w\<lparr>logged := logged w @ [load_warning]\<rparr>)"
  by (simp add: save_def load_def)

theorem save_load_without_storage_return_witness:
  "storage bot_without_storage = None \<and>
   save bot_without_storage = Inr bot_without_storage \<and>
   load bot_without_storage = Inr (bot_without_storage\<lparr>logged := [load_warning]\<rparr>)"
proof -
  have h: "storage bot_without_storage = None"
    by (simp add: bot_without_storage_def)
  have l: "logged bot_without_storage = []"
    by (simp add: bot_without_storage_def)
  show ?thesis
    using save_load_without_storage_return [OF h] h l by simp
qed

text \<open>
  C5. With a storage adapter registered whose \<^verbatim>\<open>loadMemory\<close> returns exactly the
  object last passed to \<^verbatim>\<open>saveMemory\<close>, \<^verbatim>\<open>memory.save()\<close> followed by
  \<^verbatim>\<open>memory.load()\<close> both succeed and leave the users, rooms and private
  collections (indeed every collection) equal to their values before the save.
\<close>

theorem save_then_load_keeps_collections:
  assumes "storage w = Some ad" and "returns_last_saved ad"
  shows "\<exists>w1 w2. save w = Inr w1 \<and> load w1 = Inr w2 \<and>
           collections (memory w2) ''users'' = collections (memory w) ''users'' \<and>
           collections (memory w2) ''rooms'' = collections (memory w) ''rooms'' \<and>
           collections (memory w2) ''private'' = collections (memory w) ''private'' \<and>
           collections (memory w2) = collections (memory w)"
proof -
  from assms(2) obtain a' where
    sv: "saveMemory ad (as_object (memory w)) (storage_state w) = Inr a'" and
    ld: "loadMemory ad a' = Inr (Some (as_object (memory w)))"
    unfolding returns_last_saved_def by blast
  define w1 where "w1 = setSaveInterval None ((clearSaveInterval w)\<lparr>storage_state := a'\<rparr>)"
  have s: "save w = Inr w1"
    by (simp add: save_def assms(1) sv w1_def Let_def)
  have st: "storage w1 = Some ad" "storage_state w1 = a'"
    by (simp_all add: w1_def assms(1))
  have c1: "collections (memory w1) = collections (memory w)"
    by (simp add: w1_def)
  define w2 where "w2 = w1\<lparr>memory := merge_loaded (as_object (memory w)) (memory w1)\<rparr>"
  have l: "load w1 = Inr w2"
    by (simp add: load_def st ld w2_def)
  have "object_collections (as_object (memory w)) = collections (memory w1)"
    by (simp add: as_object_def c1)
  then have "collections (memory w2) = collections (memory w)"
    by (simp add: w2_def collections_merge_same c1)
  with s l show ?thesis by simp
qed

theorem save_then_load_keeps_collections_witness:
  "storage bot_with_storage = Some keeping_adapter \<and>
   returns_last_saved (keeping_adapter :: (nat, nat memory_object option) storage_adapter) \<and>
   (\<exists>w1 w2. save bot_with_storage = Inr w1 \<and> load w1 = Inr w2 \<and>
      collections (memory w2) ''users'' = Some [''u1'' \<mapsto> 7] \<and>
      collections (memory w2) ''rooms'' = Some Map.empty \<and>
      collections (memory w2) ''private'' = Some [''k'' \<mapsto> 1])"
proof -
  have h1: "storage bot_with_storage = Some keeping_adapter"
    by (simp add: bot_with_storage_def)
  have h2: "returns_last_saved (keeping_adapter :: (nat, nat memory_object option) storage_adapter)"
    by (simp add: returns_last_saved_def keeping_adapter_def)
  have c: "collections (memory bot_with_storage) ''users'' = Some [''u1'' \<mapsto> 7]"
    "collections (memory bot_with_storage) ''rooms'' = Some Map.empty"
    "collections (memory bot_with_storage) ''private'' = Some [''k'' \<mapsto> 1]"
    by (simp_all add: bot_with_storage_def)
  show ?thesis
    using save_then_load_keeps_collections [OF h1 h2] h1 h2 c by auto
qed

text \<open>
  C1 as stated: for every stack, state and completion function, if any piece calls
  its done function then \<^verbatim>\<open>complete\<close> is never invoked and the outer promise
  resolves with the state. The done a piece receives is whatever an earlier piece
  handed to \<^verbatim>\<open>next\<close>; when that replacement calls no done, the second piece below
  calls its done function, yet \<^verbatim>\<open>complete\<close> runs and the promise stays pending: no
  call is left that could settle it.
\<close>

theorem replaced_done_lets_complete_run:
  "PieceCalledDone 1 (Drop ''cleanup'') \<in>
     set (trace (execute [piece_drops_done ''cleanup'', piece_calls_done] [] complete_marks)) \<and>
   CompleteRan \<in>
     set (trace (execute [piece_drops_done ''cleanup'', piece_calls_done] [] complete_marks)) \<and>
   settled (execute [piece_drops_done ''cleanup'', piece_calls_done] [] complete_marks) = None \<and>
   deferred (execute [piece_drops_done ''cleanup'', piece_calls_done] [] complete_marks) = []"
  by (simp add: execute_def reduceStack_def executePiece_def suspend_def late_call_def
      resolve_def reject_def record_event_def Let_def piece_drops_done_def
      piece_calls_done_def complete_marks_def)

text \<open>
  C1 amended: for every stack, state and completion function, if a piece calls its
  done function before the promise it returns settles, and that function reaches
  \<^verbatim>\<open>resolve\<close> before it returns (it is the initial done, or every replacement wrapped
  around it calls the done it replaced before returning), then \<^verbatim>\<open>complete\<close> is never
  invoked and the outer promise resolves with the state. The pieces of the stack are
  arbitrary: they may wait, leave calls of \<^verbatim>\<open>done()\<close> for later and install
  replacements that defer or drop the done they replace. The event
  \<open>PieceCalledDone i d\<close> is recorded by \<open>CallDone\<close> alone, the call a piece makes
  before its promise settles, and \<open>reaches_resolve d\<close> fails for a done function that
  does not call \<^verbatim>\<open>resolve\<close> before it returns.
\<close>

theorem done_prevents_complete:
  assumes "PieceCalledDone i d \<in> set (trace (execute stack b complete))"
    and "reaches_resolve d"
  shows "CompleteRan \<notin> set (trace (execute stack b complete)) \<and>
         settled (execute stack b complete) = Some Resolved"
proof -
  let ?x0 = "\<lparr>state = b, current_done = Resolve, isPending = True, settled = None,
               deferred = [], trace = []\<rparr>"
  have "calm (?x0\<lparr>current_done := Resolve\<rparr>)"
    by (simp add: calm_def)
  then have c: "calm (fst (run_stack 0 stack (?x0\<lparr>current_done := Resolve\<rparr>)))"
    by (rule calm_run_stack)
  obtain x r where xr: "run_stack 0 stack (?x0\<lparr>current_done := Resolve\<rparr>) = (x, r)"
    by (cases "run_stack 0 stack (?x0\<lparr>current_done := Resolve\<rparr>)")
  with c have cx: "calm x" by simp
  have in_x: "PieceCalledDone i d \<in> set (trace x)"
  proof (cases r)
    case (Some err)
    then show ?thesis using assms(1) xr
      by (simp add: execute_def reduceStack_def reject_def split: if_splits)
  next
    case None
    show ?thesis
    proof (cases "isPending x")
      case False
      then show ?thesis using assms(1) xr None
        by (simp add: execute_def reduceStack_def)
    next
      case True
      show ?thesis
      proof (cases "complete (state x)")
        case (Pair s e)
        show ?thesis
        proof (cases e)
          case (Some err)
          then show ?thesis using assms(1) xr None True Pair
            by (simp add: execute_def reduceStack_def reject_def record_event_def
                split: if_splits)
        next
          case no_error: None
          let ?y = "record_event CompleteRan (x\<lparr>state := s\<rparr>)"
          have "PieceCalledDone i d \<in>
              set (trace (suspend (run_done (current_done x) (suspend ?y))))"
            using assms(1) xr None True Pair no_error
            by (simp add: execute_def reduceStack_def)
          then have "PieceCalledDone i d \<in> set (trace (run_done (current_done x) (suspend ?y)))"
            by (rule suspend_adds_no_piece_call)
          then have "PieceCalledDone i d \<in> set (trace (suspend ?y))"
            by (rule run_done_adds_no_piece_call)
          then have "PieceCalledDone i d \<in> set (trace ?y)"
            by (rule suspend_adds_no_piece_call)
          then show ?thesis by (simp add: record_event_def)
        qed
      qed
    qed
  qed
  with cx assms(2) have fin: "settled x = Some Resolved" "\<not> isPending x" "CompleteRan \<notin> set (trace x)"
    by (auto simp: calm_def)
  then show ?thesis using xr
    by (cases r) (simp_all add: execute_def reduceStack_def reject_def)
qed

theorem done_prevents_complete_witness:
  "PieceCalledDone 1 (Wrap ''cleanup'' Resolve) \<in>
     set (trace (execute [piece_wraps_done ''cleanup'', piece_calls_done, piece_marks ''third'']
                   [] complete_marks)) \<and>
   reaches_resolve (Wrap ''cleanup'' Resolve) \<and>
   CompleteRan \<notin>
     set (trace (execute [piece_wraps_done ''cleanup'', piece_calls_done, piece_marks ''third'']
                   [] complete_marks)) \<and>
   settled (execute [piece_wraps_done ''cleanup'', piece_calls_done, piece_marks ''third'']
              [] complete_marks) = Some Resolved"
proof -
  have h1: "PieceCalledDone 1 (Wrap ''cleanup'' Resolve) \<in>
     set (trace (execute [piece_wraps_done ''cleanup'', piece_calls_done, piece_marks ''third'']
                   [] complete_marks))"
    by (simp add: execute_def reduceStack_def executePiece_def suspend_def late_call_def
        resolve_def reject_def record_event_def Let_def piece_wraps_done_def
        piece_calls_done_def piece_marks_def complete_marks_def)
  have h2: "reaches_resolve (Wrap ''cleanup'' Resolve)"
    by simp
  show ?thesis
    using done_prevents_complete [OF h1 h2] h1 h2 by simp
qed

text \<open>
  C2. If a piece calls \<^verbatim>\<open>done()\<close>, no piece registered after it runs. In the code the
  loop over the stack has no exit but an exception: with a first piece that calls
  \<^verbatim>\<open>done()\<close> and a second that marks the state, the second piece runs after the
  promise has been resolved, and its mark is in the state.
\<close>

theorem later_piece_runs_after_done:
  "trace (execute [piece_calls_done, piece_marks ''second''] [] complete_marks) =
     [PieceRan 0, PieceCalledDone 0 Resolve, ResolveCalled, PieceRan 1] \<and>
   state (execute [piece_calls_done, piece_marks ''second''] [] complete_marks) = [''second''] \<and>
   settled (execute [piece_calls_done, piece_marks ''second''] [] complete_marks) = Some Resolved"
  by (simp add: execute_def reduceStack_def executePiece_def suspend_def late_call_def
      resolve_def reject_def record_event_def Let_def piece_calls_done_def piece_marks_def
      complete_marks_def)

text \<open>
  C10. In the initial state and after every transition performed by \<^verbatim>\<open>load\<close>,
  \<^verbatim>\<open>start\<close>, \<^verbatim>\<open>shutdown\<close>, \<^verbatim>\<open>pause\<close> or \<^verbatim>\<open>reset\<close>, in whatever order their
  parts run, exactly one status flag is set, and \<^verbatim>\<open>getStatus()\<close> returns one of the
  six status names and never \<^verbatim>\<open>'broken'\<close>.
\<close>

theorem status_always_one_flag:
  "flags_set (status (run acts initial_lifecycle)) = 1 \<and>
   getStatus (status (run acts initial_lifecycle)) \<in> set status_names \<and>
   getStatus (status (run acts initial_lifecycle)) \<noteq> ''broken''"
proof -
  have "known_status (status initial_lifecycle)"
    by (simp add: initial_lifecycle_def known_status_initial)
  then have "known_status (status (run acts initial_lifecycle))"
    by (rule known_run)
  then show ?thesis by (rule known_status_flags)
qed



text \<open>
  C3 as stated: for the Conditions built from the single condition
  \<^verbatim>\<open>{ starts: "set", after: "set" }\<close> with default options, \<^verbatim>\<open>exec("set alarm 7")\<close> yields
  \<^verbatim>\<open>success = true\<close> and \<^verbatim>\<open>captured = "alarm 7"\<close>. On the code the result is different.
\<close>

theorem starts_after_set_alarm_differs:
  "exec_outcome ''set alarm 7''
     (new_Conditions no_ranges
        (Single (FromCondition [(Starts, One ''set''), (After, One ''set'')])) no_options) \<noteq>
   Inr (True, OneCapture (Some ''alarm 7''))"
  by code_simp

text \<open>
  C3 amended: the patterns of the two keys are concatenated, so the compiled
  expression asks for \<^verbatim>\<open>set\<close> twice in a row; \<^verbatim>\<open>exec("set alarm 7")\<close> finds no match,
  \<^verbatim>\<open>success\<close> is false and \<^verbatim>\<open>captured\<close> is undefined. Built from \<^verbatim>\<open>{ after: "set" }\<close>
  alone, \<^verbatim>\<open>exec("set alarm 7")\<close> yields \<^verbatim>\<open>success = true\<close> and \<^verbatim>\<open>captured = "alarm 7"\<close>.
\<close>

theorem starts_after_set_alarm:
  "expression_sources
     (new_Conditions no_ranges
        (Single (FromCondition [(Starts, One ''set''), (After, One ''set'')])) no_options) =
   Inr [bs ''(?:set)(?:set%s?)([%w%-%s%,%-%:]+)''] \<and>
   exec_outcome ''set alarm 7''
     (new_Conditions no_ranges
        (Single (FromCondition [(Starts, One ''set''), (After, One ''set'')])) no_options) =
   Inr (False, OneCapture None) \<and>
   exec_outcome ''set alarm 7''
     (new_Conditions no_ranges (Single (FromCondition [(After, One ''set'')])) no_options) =
   Inr (True, OneCapture (Some ''alarm 7''))"
  by code_simp

end
